theory Spec2Isabelle
  imports Main "HOL-Library.Sublist"
begin

section \<open>The upload script: data and the outside world\<close>

text \<open>
  The script \<^verbatim>\<open>file_upload.py\<close> talks to an object store through an SDK client, to the
  local file system and to the console. The model makes each of these explicit:
  \<^item> a Python \<^verbatim>\<open>str\<close> and a Python \<^verbatim>\<open>bytes\<close> value are both a \<open>char list\<close> (a
    \<open>char\<close> is one byte; text is its UTF-8 encoding);
  \<^item> an exception is a value of type \<open>exn\<close>; every constructor stands for a subclass of
    Python's \<^verbatim>\<open>Exception\<close>, and \<open>ClientError\<close> is the one class that
    \<^verbatim>\<open>generate_presigned_url\<close> catches;
  \<^item> the world is the local file system (a map from path to contents) together with
    the chronological trace of every effect performed so far;
  \<^item> the object store and the random source are an environment: the answer to a
    request is an arbitrary function of the history and the request, so a theorem
    for every environment covers every way the store can succeed or fail.
\<close>

type_synonym bytes = "char list"

datatype exn =
    ClientError string
  | FileNotFoundError string
  | KeyError string
  | ValueError string
  | IndexError string
  | OtherException string

text \<open>The text that \<^verbatim>\<open>f"{e}"\<close> prints for an exception.\<close>

fun str_exn :: "exn \<Rightarrow> string" where
  "str_exn (ClientError m) = m"
| "str_exn (FileNotFoundError m) = m"
| "str_exn (KeyError m) = m"
| "str_exn (ValueError m) = m"
| "str_exn (IndexError m) = m"
| "str_exn (OtherException m) = m"

text \<open>
  The requests of the SDK client, with the keyword arguments of the source in the
  source's order. A part descriptor \<^verbatim>\<open>{'ETag': e, 'PartNumber': n}\<close> is the pair
  \<open>(e, n)\<close>. \<open>UploadFile\<close> carries, after the arguments of the source, the body that
  the SDK reads from the local file.
\<close>

datatype s3_call =
    CreateMultipartUpload string string string
  | UploadPart string string nat string bytes
  | CompleteMultipartUpload string string "(string \<times> nat) list" string
  | AbortMultipartUpload string string string
  | GeneratePresignedUrl string string string nat
  | UploadFile string string string string bytes

datatype st_call =
    St_error string
  | St_success string
  | St_write string
  | St_markdown string
  | St_warning string

datatype event =
    Uuid4 string
  | S3 s3_call "exn + string"
  | Print string
  | WriteFile string bytes
  | RemoveFile string
  | St st_call

record world =
  fs :: "string \<rightharpoonup> bytes"
  trace :: "event list"

record env =
  respond :: "event list \<Rightarrow> s3_call \<Rightarrow> exn + string"
  uuid4 :: "event list \<Rightarrow> string"

record uploaded_file =
  name :: string
  content :: bytes

definition emit :: "event \<Rightarrow> world \<Rightarrow> world" where
  "emit ev w = w\<lparr>trace := trace w @ [ev]\<rparr>"

text \<open>
  One request to the object store: the environment answers from the history and the
  request, and the request is recorded together with its outcome. A successful answer
  is the one field the script reads from the response (\<^verbatim>\<open>UploadId\<close>, \<^verbatim>\<open>ETag\<close>, the URL).
\<close>

definition s3_invoke :: "env \<Rightarrow> s3_call \<Rightarrow> world \<Rightarrow> (exn + string) \<times> world" where
  "s3_invoke env c w = (let r = respond env (trace w) c in (r, emit (S3 c r) w))"

text \<open>\<^verbatim>\<open>with open(path, "wb") as f: f.write(data)\<close> and \<^verbatim>\<open>os.remove(path)\<close>.\<close>

definition write_file :: "string \<Rightarrow> bytes \<Rightarrow> world \<Rightarrow> world" where
  "write_file path data w = emit (WriteFile path data) (w\<lparr>fs := (fs w)(path \<mapsto> data)\<rparr>)"

definition os_remove :: "string \<Rightarrow> world \<Rightarrow> (exn + unit) \<times> world" where
  "os_remove path w =
     (case fs w path of
        None \<Rightarrow> (Inl (FileNotFoundError path), w)
      | Some _ \<Rightarrow> (Inr (), emit (RemoveFile path) (w\<lparr>fs := (fs w)(path := None)\<rparr>)))"

subsection \<open>String operations of Python\<close>

text \<open>
  \<^verbatim>\<open>str.lower\<close> on the ASCII letters; no other character lower-cases to one of the
  characters of \<^verbatim>\<open>.jpg\<close> or \<^verbatim>\<open>.jpeg\<close>, so the test below agrees with Python's.
\<close>

definition lower_char :: "char \<Rightarrow> char" where
  "lower_char c =
     (let n = (of_char c :: nat) in if 65 \<le> n \<and> n \<le> 90 then char_of (n + 32) else c)"

definition lower :: "string \<Rightarrow> string" where
  "lower s = map lower_char s"

definition endswith :: "string \<Rightarrow> string \<Rightarrow> bool" where
  "endswith s suf = (length suf \<le> length s \<and> drop (length s - length suf) s = suf)"

text \<open>Truthiness of an optional string: \<^verbatim>\<open>None\<close> and \<^verbatim>\<open>""\<close> are false.\<close>

fun truthy :: "string option \<Rightarrow> bool" where
  "truthy None = False"
| "truthy (Some s) = (s \<noteq> [])"


section \<open>The upload script: operations\<close>

subsection \<open>\<^verbatim>\<open>multipart_upload\<close>\<close>

definition chunk_size :: nat where
  "chunk_size = 5 * 1024 * 1024"

definition content_type :: "string \<Rightarrow> string" where
  "content_type object_name =
     (if endswith (lower object_name) ''.jpg'' \<or> endswith (lower object_name) ''.jpeg''
      then ''image/jpeg'' else ''image/png'')"

text \<open>
  The loop \<^verbatim>\<open>for part_number, chunk in enumerate(iter(lambda: file.read(chunk_size), b''), 1)\<close>:
  \<open>rest\<close> is what the open file has not yet delivered, \<^verbatim>\<open>file.read\<close> takes the next
  \<open>chunk_size\<close> bytes of it (fewer at the end of the file), the empty chunk ends the
  loop, and an exception of \<^verbatim>\<open>upload_part\<close> leaves the loop at once.
\<close>

function upload_parts ::
  "env \<Rightarrow> string \<Rightarrow> string \<Rightarrow> string \<Rightarrow> nat \<Rightarrow> bytes \<Rightarrow> (string \<times> nat) list \<Rightarrow> world
   \<Rightarrow> (exn + (string \<times> nat) list) \<times> world" where
  "upload_parts env bucket_name full_object_name upload_id part_number rest parts w =
     (if take chunk_size rest = [] then (Inr parts, w)
      else
        (case s3_invoke env
                (UploadPart bucket_name full_object_name part_number upload_id
                   (take chunk_size rest)) w of
           (Inl e, w') \<Rightarrow> (Inl e, w')
         | (Inr etag, w') \<Rightarrow>
             upload_parts env bucket_name full_object_name upload_id (part_number + 1)
               (drop chunk_size rest) (parts @ [(etag, part_number)]) w'))"
  by pat_completeness auto
termination
  by (relation "measure (\<lambda>(env, b, k, u, n, rest, parts, w). length rest)")
     (auto simp: chunk_size_def)

declare upload_parts.simps [simp del]

text \<open>
  The body of the \<^verbatim>\<open>try\<close> block. Beside the outcome it returns the binding of the local
  \<^verbatim>\<open>upload_id\<close>, which the handler tests with \<^verbatim>\<open>'upload_id' in locals()\<close>: the
  variable is bound exactly when \<^verbatim>\<open>create_multipart_upload\<close> has returned.
\<close>

definition multipart_upload_try ::
  "env \<Rightarrow> string \<Rightarrow> string \<Rightarrow> string \<Rightarrow> string \<Rightarrow> world
   \<Rightarrow> (exn + string) \<times> string option \<times> world" where
  "multipart_upload_try env file_path bucket_name folder_name object_name w =
     (let full_object_name = folder_name @ ''/'' @ object_name in
      case s3_invoke env
             (CreateMultipartUpload bucket_name full_object_name (content_type object_name)) w of
        (Inl e, w1) \<Rightarrow> (Inl e, None, w1)
      | (Inr upload_id, w1) \<Rightarrow>
          (case fs w1 file_path of
             None \<Rightarrow> (Inl (FileNotFoundError file_path), Some upload_id, w1)
           | Some file \<Rightarrow>
               (case upload_parts env bucket_name full_object_name upload_id 1 file [] w1 of
                  (Inl e, w2) \<Rightarrow> (Inl e, Some upload_id, w2)
                | (Inr parts, w2) \<Rightarrow>
                    (case s3_invoke env
                            (CompleteMultipartUpload bucket_name full_object_name parts upload_id)
                            w2 of
                       (Inl e, w3) \<Rightarrow> (Inl e, Some upload_id, w3)
                     | (Inr _, w3) \<Rightarrow> (Inr full_object_name, Some upload_id, w3)))))"

text \<open>
  The \<^verbatim>\<open>except Exception as e\<close> handler. The call of \<^verbatim>\<open>abort_multipart_upload\<close>
  stands in the handler, outside every \<^verbatim>\<open>try\<close>: an exception it raises leaves
  \<^verbatim>\<open>multipart_upload\<close>.
\<close>

definition multipart_upload_except ::
  "env \<Rightarrow> string \<Rightarrow> string \<Rightarrow> string \<Rightarrow> exn \<Rightarrow> string option \<Rightarrow> world
   \<Rightarrow> (exn + string option) \<times> world" where
  "multipart_upload_except env bucket_name folder_name object_name e upload_id w =
     (let w1 = emit (Print (''Error uploading '' @ object_name @ '': '' @ str_exn e)) w in
      case upload_id of
        None \<Rightarrow> (Inr None, w1)
      | Some uid \<Rightarrow>
          (case s3_invoke env
                  (AbortMultipartUpload bucket_name (folder_name @ ''/'' @ object_name) uid) w1 of
             (Inl e', w2) \<Rightarrow> (Inl e', w2)
           | (Inr _, w2) \<Rightarrow> (Inr None, w2)))"

definition multipart_upload ::
  "env \<Rightarrow> string \<Rightarrow> string \<Rightarrow> string \<Rightarrow> string \<Rightarrow> world \<Rightarrow> (exn + string option) \<times> world" where
  "multipart_upload env file_path bucket_name folder_name object_name w =
     (case multipart_upload_try env file_path bucket_name folder_name object_name w of
        (Inr full_object_name, _, w') \<Rightarrow> (Inr (Some full_object_name), w')
      | (Inl e, upload_id, w') \<Rightarrow>
          multipart_upload_except env bucket_name folder_name object_name e upload_id w')"

subsection \<open>\<^verbatim>\<open>generate_presigned_url\<close>\<close>

text \<open>Only \<^verbatim>\<open>ClientError\<close> is caught; any other exception leaves the function.\<close>

definition generate_presigned_url ::
  "env \<Rightarrow> string \<Rightarrow> string \<Rightarrow> nat \<Rightarrow> world \<Rightarrow> (exn + string option) \<times> world" where
  "generate_presigned_url env bucket_name object_name expiration w =
     (case s3_invoke env (GeneratePresignedUrl ''get_object'' bucket_name object_name expiration) w of
        (Inr url, w') \<Rightarrow> (Inr (Some url), w')
      | (Inl (ClientError m), w') \<Rightarrow>
          (Inr None, emit (Print (''Error generating pre-signed URL: '' @ m)) w')
      | (Inl e, w') \<Rightarrow> (Inl e, w'))"

subsection \<open>\<^verbatim>\<open>create_preview_html\<close>\<close>

definition html_header :: string where
  \<open>html_header =
     ''<!DOCTYPE html>\<newline>'' @
     ''<html lang="en">\<newline>'' @
     ''<head>\<newline>'' @
     ''    <meta charset="UTF-8">\<newline>'' @
     ''    <meta name="viewport" content="width=device-width, initial-scale=1.0">\<newline>'' @
     ''    <title>Image Gallery</title>\<newline>'' @
     ''    <style>\<newline>'' @
     ''        body { font-family: Arial, sans-serif; text-align: center; }\<newline>'' @
     ''        h2 { color: #333; }\<newline>'' @
     ''        .gallery { display: flex; flex-wrap: wrap; justify-content: center; gap: 20px; }\<newline>'' @
     ''        .image-container {\<newline>'' @
     ''            display: flex;\<newline>'' @
     ''            flex-direction: column;\<newline>'' @
     ''            align-items: center;\<newline>'' @
     ''            border: 1px solid #ddd;\<newline>'' @
     ''            padding: 10px;\<newline>'' @
     ''            border-radius: 10px;\<newline>'' @
     ''            box-shadow: 0px 4px 6px rgba(0, 0, 0, 0.2);\<newline>'' @
     ''            background: #fff;\<newline>'' @
     ''        }\<newline>'' @
     ''        .gallery img { width: 200px; height: auto; border-radius: 10px; cursor: pointer; }\<newline>'' @
     ''        .btn-group { margin-top: 10px; display: flex; gap: 10px; }\<newline>'' @
     ''        .btn {\<newline>'' @
     ''            padding: 8px 15px;\<newline>'' @
     ''            border: none;\<newline>'' @
     ''            border-radius: 5px;\<newline>'' @
     ''            cursor: pointer;\<newline>'' @
     ''            font-size: 14px;\<newline>'' @
     ''        }\<newline>'' @
     ''        .view-btn { background: #007bff; color: white; text-decoration: none; }\<newline>'' @
     ''        .download-btn { background: #28a745; color: white; text-decoration: none; }\<newline>'' @
     ''        .btn:hover { opacity: 0.8; }\<newline>'' @
     ''    </style>\<newline>'' @
     ''</head>\<newline>'' @
     ''<body>\<newline>'' @
     ''    <h2>Uploaded Images</h2>\<newline>'' @
     ''    <div class="gallery">\<newline>''\<close>

definition html_entry :: "string \<Rightarrow> string" where
  \<open>html_entry link =
     ''\<newline>'' @
     ''        <div class="image-container">\<newline>'' @
     ''            <a href="'' @ link @ ''" target="_blank">\<newline>'' @
     ''                <img src="'' @ link @ ''" alt="Uploaded Image">\<newline>'' @
     ''            </a>\<newline>'' @
     ''            <div class="btn-group">\<newline>'' @
     ''                <a href="'' @ link @ ''" target="_blank" class="btn view-btn">'' @ [CHR 0xF0, CHR 0x9F, CHR 0x94, CHR 0x8D] @ '' View</a>\<newline>'' @
     ''                <a href="'' @ link @ ''" download class="btn download-btn">'' @ [CHR 0xE2, CHR 0xAC, CHR 0x87] @ '' Download</a>\<newline>'' @
     ''            </div>\<newline>'' @
     ''        </div>\<newline>'' @
     ''        ''\<close>

definition html_footer :: string where
  \<open>html_footer =
     ''\<newline>'' @
     ''    </div>\<newline>'' @
     ''</body>\<newline>'' @
     ''</html>\<newline>''\<close>

text \<open>\<^verbatim>\<open>s3_client.upload_file\<close> reads the local file and sends it.\<close>

definition upload_file ::
  "env \<Rightarrow> string \<Rightarrow> string \<Rightarrow> string \<Rightarrow> string \<Rightarrow> world \<Rightarrow> (exn + string) \<times> world" where
  "upload_file env filename bucket_name key ctype w =
     (case fs w filename of
        None \<Rightarrow> (Inl (FileNotFoundError filename), w)
      | Some body \<Rightarrow> s3_invoke env (UploadFile filename bucket_name key ctype body) w)"

definition create_preview_html ::
  "env \<Rightarrow> string list \<Rightarrow> string \<Rightarrow> string \<Rightarrow> world \<Rightarrow> (exn + string) \<times> world" where
  "create_preview_html env image_links bucket_name folder_name w =
     (let html_content =
            foldl (\<lambda>html link. html @ html_entry link) html_header image_links @ html_footer;
          html_file_name = folder_name @ ''/gallery.html'';
          w1 = write_file ''gallery.html'' html_content w
      in case upload_file env ''gallery.html'' bucket_name html_file_name ''text/html'' w1 of
           (Inl e, w2) \<Rightarrow> (Inl e, w2)
         | (Inr _, w2) \<Rightarrow>
             (case os_remove ''gallery.html'' w2 of
                (Inl e, w3) \<Rightarrow> (Inl e, w3)
              | (Inr _, w3) \<Rightarrow> (Inr html_file_name, w3)))"

subsection \<open>\<^verbatim>\<open>upload_multiple_images_to_s3\<close>\<close>

text \<open>
  The body of the loop \<^verbatim>\<open>for file in files\<close>, for one file: it returns the list
  \<^verbatim>\<open>image_links\<close> as this file leaves it.
\<close>

definition process_file ::
  "env \<Rightarrow> uploaded_file \<Rightarrow> string \<Rightarrow> string \<Rightarrow> string list \<Rightarrow> world
   \<Rightarrow> (exn + string list) \<times> world" where
  "process_file env file bucket_name folder_name image_links w =
     (let object_name = name file;
          w1 = write_file (name file) (content file) w
      in case multipart_upload env (name file) bucket_name folder_name object_name w1 of
           (Inl e, w2) \<Rightarrow> (Inl e, w2)
         | (Inr object_path, w2) \<Rightarrow>
             (case (if truthy object_path
                    then (case generate_presigned_url env bucket_name (the object_path) 3600 w2 of
                            (Inl e, w3) \<Rightarrow> (Inl e, w3)
                          | (Inr presigned_url, w3) \<Rightarrow>
                              (Inr (if truthy presigned_url
                                    then image_links @ [the presigned_url]
                                    else image_links), w3))
                    else (Inr image_links, w2)) of
                (Inl e, w3) \<Rightarrow> (Inl e, w3)
              | (Inr image_links', w3) \<Rightarrow>
                  (case os_remove (name file) w3 of
                     (Inl e, w4) \<Rightarrow> (Inl e, w4)
                   | (Inr _, w4) \<Rightarrow> (Inr image_links', w4))))"

fun upload_loop ::
  "env \<Rightarrow> uploaded_file list \<Rightarrow> string \<Rightarrow> string \<Rightarrow> string list \<Rightarrow> world
   \<Rightarrow> (exn + string list) \<times> world" where
  "upload_loop env [] bucket_name folder_name image_links w = (Inr image_links, w)"
| "upload_loop env (file # files) bucket_name folder_name image_links w =
     (case process_file env file bucket_name folder_name image_links w of
        (Inl e, w') \<Rightarrow> (Inl e, w')
      | (Inr image_links', w') \<Rightarrow> upload_loop env files bucket_name folder_name image_links' w')"

definition upload_multiple_images_to_s3 ::
  "env \<Rightarrow> uploaded_file list \<Rightarrow> string \<Rightarrow> world \<Rightarrow> (exn + string option) \<times> world" where
  "upload_multiple_images_to_s3 env files bucket_name w =
     (let session_id = uuid4 env (trace w);
          w0 = emit (Uuid4 session_id) w;
          folder_name = ''uploads/'' @ session_id
      in case upload_loop env files bucket_name folder_name [] w0 of
           (Inl e, w1) \<Rightarrow> (Inl e, w1)
         | (Inr image_links, w1) \<Rightarrow>
             (case create_preview_html env image_links bucket_name folder_name w1 of
                (Inl e, w2) \<Rightarrow> (Inl e, w2)
              | (Inr html_object_path, w2) \<Rightarrow>
                  generate_presigned_url env bucket_name html_object_path 3600 w2))"

subsection \<open>The form: what the \<^verbatim>\<open>Upload\<close> button does\<close>

text \<open>
  \<^verbatim>\<open>str.strip()\<close> removes leading and trailing whitespace. Bucket names are ASCII, and
  these are the ASCII characters for which \<^verbatim>\<open>str.isspace\<close> holds.
\<close>

definition isspace :: "char \<Rightarrow> bool" where
  "isspace c = ((of_char c :: nat) \<in> {9, 10, 11, 12, 13, 28, 29, 30, 31, 32})"

definition strip :: "string \<Rightarrow> string" where
  "strip s = rev (dropWhile isspace (rev (dropWhile isspace s)))"

definition upload_button ::
  "env \<Rightarrow> string \<Rightarrow> uploaded_file list \<Rightarrow> world \<Rightarrow> (exn + unit) \<times> world" where
  "upload_button env bucket_name uploaded_files w =
     (if \<not> truthy (Some (strip bucket_name))
      then (Inr (), emit (St (St_error ''Please enter a valid bucket name.'')) w)
      else if uploaded_files \<noteq> []
      then (case upload_multiple_images_to_s3 env uploaded_files bucket_name w of
              (Inl e, w') \<Rightarrow> (Inl e, w')
            | (Inr gallery_link, w') \<Rightarrow>
                (if truthy gallery_link
                 then (Inr (),
                       emit (St (St_markdown
                                   (''[Click to View Image Gallery]('' @ the gallery_link @ '')'')))
                         (emit (St (St_write ''### View Uploaded Images:''))
                            (emit (St (St_success ''Files uploaded successfully!'')) w')))
                 else (Inr (), emit (St (St_error ''Failed to generate a preview link.'')) w')))
      else (Inr (), emit (St (St_warning ''Please upload at least one file.'')) w))"

section \<open>Reading a trace\<close>

fun call_of :: "event \<Rightarrow> s3_call option" where
  "call_of (S3 c r) = Some c"
| "call_of _ = None"

definition s3_calls :: "event list \<Rightarrow> s3_call list" where
  "s3_calls evs = List.map_filter call_of evs"

fun key_of :: "s3_call \<Rightarrow> string" where
  "key_of (CreateMultipartUpload b k ct) = k"
| "key_of (UploadPart b k n u body) = k"
| "key_of (CompleteMultipartUpload b k ps u) = k"
| "key_of (AbortMultipartUpload b k u) = k"
| "key_of (GeneratePresignedUrl m b k ex) = k"
| "key_of (UploadFile f b k ct body) = k"

fun is_create :: "s3_call \<Rightarrow> bool" where
  "is_create (CreateMultipartUpload b k ct) = True"
| "is_create _ = False"

fun is_upload_part :: "s3_call \<Rightarrow> bool" where
  "is_upload_part (UploadPart b k n u body) = True"
| "is_upload_part _ = False"

fun is_complete :: "s3_call \<Rightarrow> bool" where
  "is_complete (CompleteMultipartUpload b k ps u) = True"
| "is_complete _ = False"

fun is_abort :: "s3_call \<Rightarrow> bool" where
  "is_abort (AbortMultipartUpload b k u) = True"
| "is_abort _ = False"

fun is_presign :: "s3_call \<Rightarrow> bool" where
  "is_presign (GeneratePresignedUrl m b k ex) = True"
| "is_presign _ = False"

fun is_upload_file :: "s3_call \<Rightarrow> bool" where
  "is_upload_file (UploadFile f b k ct body) = True"
| "is_upload_file _ = False"

definition is_multipart :: "s3_call \<Rightarrow> bool" where
  "is_multipart c = (is_create c \<or> is_upload_part c \<or> is_complete c \<or> is_abort c)"

text \<open>The events a call has added to the trace.\<close>

definition new_events :: "world \<Rightarrow> world \<Rightarrow> event list" where
  "new_events w w' = drop (length (trace w)) (trace w')"

text \<open>
  The parts that were uploaded: part number, body and the \<^verbatim>\<open>ETag\<close> of the response,
  for every \<^verbatim>\<open>upload_part\<close> request that returned.
\<close>

fun part_of :: "event \<Rightarrow> (nat \<times> bytes \<times> string) option" where
  "part_of (S3 (UploadPart b k n u body) (Inr etag)) = Some (n, body, etag)"
| "part_of _ = None"

definition uploaded_parts :: "event list \<Rightarrow> (nat \<times> bytes \<times> string) list" where
  "uploaded_parts evs = List.map_filter part_of evs"

text \<open>
  What the iterator \<^verbatim>\<open>iter(lambda: file.read(chunk_size), b'')\<close> delivers for a file
  with the given contents.
\<close>

function read_chunks :: "bytes \<Rightarrow> bytes list" where
  "read_chunks rest =
     (if take chunk_size rest = [] then []
      else take chunk_size rest # read_chunks (drop chunk_size rest))"
  by pat_completeness auto
termination
  by (relation "measure length") (auto simp: chunk_size_def)

declare read_chunks.simps [simp del]

text \<open>
  An event of one multipart upload after its create request: a console line or a
  request for a part, the completion or the abort, under the key of the upload.
\<close>

definition upload_event :: "string \<Rightarrow> event \<Rightarrow> bool" where
  "upload_event k ev =
     (case ev of
        Print m \<Rightarrow> True
      | S3 c r \<Rightarrow> \<not> is_create c \<and> is_multipart c \<and> key_of c = k
      | _ \<Rightarrow> False)"

section \<open>Concrete worlds and environments\<close>

text \<open>An object store in which every request succeeds; a part's ETag names its number.\<close>

definition env_ok :: env where
  "env_ok =
     \<lparr>respond = (\<lambda>h c.
        case c of
          CreateMultipartUpload b k ct \<Rightarrow> Inr ''upload-1''
        | UploadPart b k n u body \<Rightarrow> Inr (''etag-'' @ replicate n (CHR ''i''))
        | GeneratePresignedUrl m b k ex \<Rightarrow> Inr (''https://'' @ b @ ''/'' @ k @ ''?sig'')
        | _ \<Rightarrow> Inr []),
      uuid4 = (\<lambda>h. ''6f1c'')\<rparr>"

definition w_empty :: world where
  "w_empty = \<lparr>fs = Map.empty, trace = []\<rparr>"

text \<open>A local file of three bytes, an empty local file.\<close>

definition w_abc :: world where
  "w_abc = \<lparr>fs = [''a.JPG'' \<mapsto> ''abc''], trace = []\<rparr>"

definition w_zero :: world where
  "w_zero = \<lparr>fs = [''z.png'' \<mapsto> []], trace = []\<rparr>"

text \<open>A local file of one byte more than five mebibytes.\<close>

definition w_big :: world where
  "w_big = \<lparr>fs = [''big.png'' \<mapsto> replicate 5242881 (CHR ''x'')], trace = []\<rparr>"

text \<open>
  An event of the request for a pre-signed URL of a key: the request, or the console
  line of its handler.
\<close>

definition presign_event :: "string \<Rightarrow> string \<Rightarrow> event \<Rightarrow> bool" where
  "presign_event b k ev =
     (case ev of
        Print m \<Rightarrow> True
      | S3 c r \<Rightarrow> c = GeneratePresignedUrl ''get_object'' b k 3600
      | _ \<Rightarrow> False)"

text \<open>Two submitted files.\<close>

definition f_a :: uploaded_file where
  "f_a = \<lparr>name = ''a.png'', content = ''abc''\<rparr>"

definition f_b :: uploaded_file where
  "f_b = \<lparr>name = ''b.png'', content = ''de''\<rparr>"

text \<open>
  The connection is lost after the multipart session has been opened: every later
  request raises, the abort request among them.
\<close>

definition env_net_down :: env where
  "env_net_down =
     \<lparr>respond = (\<lambda>h c.
        case c of
          CreateMultipartUpload b k ct \<Rightarrow> Inr ''upload-1''
        | _ \<Rightarrow> Inl (OtherException ''EndpointConnectionError'')),
      uuid4 = (\<lambda>h. ''6f1c'')\<rparr>"

text \<open>Every \<^verbatim>\<open>upload_part\<close> request is refused; every other request succeeds.\<close>

definition env_part_fails :: env where
  "env_part_fails =
     \<lparr>respond = (\<lambda>h c.
        case c of
          CreateMultipartUpload b k ct \<Rightarrow> Inr ''upload-1''
        | UploadPart b k n u body \<Rightarrow> Inl (ClientError ''SlowDown'')
        | GeneratePresignedUrl m b k ex \<Rightarrow> Inr (''https://'' @ b @ ''/'' @ k @ ''?sig'')
        | _ \<Rightarrow> Inr []),
      uuid4 = (\<lambda>h. ''6f1c'')\<rparr>"

text \<open>The event that makes \<^verbatim>\<open>multipart_upload\<close> return an object path.\<close>

fun upload_completed :: "event \<Rightarrow> bool" where
  "upload_completed (S3 (CompleteMultipartUpload b k ps u) (Inr x)) = True"
| "upload_completed _ = False"

text \<open>
  The shape of the events of one turn of the loop that ends without an exception: the
  local copy is written, the multipart upload runs from its create request on, the
  events of a pre-signed URL follow exactly when the upload was completed, and the local
  copy is removed.
\<close>

abbreviation file_segment :: "string \<Rightarrow> string \<Rightarrow> uploaded_file \<Rightarrow> event list \<Rightarrow> bool" where
  "file_segment b folder f seg \<equiv>
     \<exists>r rest ps.
       seg = WriteFile (name f) (content f) #
             S3 (CreateMultipartUpload b (folder @ ''/'' @ name f) (content_type (name f))) r #
             rest @ ps @ [RemoveFile (name f)] \<and>
       list_all (upload_event (folder @ ''/'' @ name f)) rest \<and>
       list_all (presign_event b (folder @ ''/'' @ name f)) ps \<and>
       (ps \<noteq> []) = list_ex upload_completed rest"

text \<open>The bucket does not exist: the store refuses every upload request.\<close>

definition env_no_bucket :: env where
  "env_no_bucket =
     \<lparr>respond = (\<lambda>h c.
        case c of
          GeneratePresignedUrl m b k ex \<Rightarrow> Inr (''https://'' @ b @ ''/'' @ k @ ''?sig'')
        | _ \<Rightarrow> Inl (ClientError ''NoSuchBucket'')),
      uuid4 = (\<lambda>h. ''6f1c'')\<rparr>"

text \<open>
  An event of the loop over the files, and an event of the gallery page: a request
  carries a key of the session folder; no second session id is drawn and the form is not
  touched.
\<close>

definition session_event :: "string \<Rightarrow> uploaded_file list \<Rightarrow> event \<Rightarrow> bool" where
  "session_event folder files ev =
     (case ev of
        S3 c r \<Rightarrow> (is_multipart c \<or> is_presign c) \<and>
                  key_of c \<in> set (map (\<lambda>f. folder @ ''/'' @ name f) files)
      | Uuid4 s \<Rightarrow> False
      | St x \<Rightarrow> False
      | _ \<Rightarrow> True)"

definition gallery_event :: "string \<Rightarrow> event \<Rightarrow> bool" where
  "gallery_event folder ev =
     (case ev of
        S3 c r \<Rightarrow> (is_upload_file c \<or> is_presign c) \<and> key_of c = folder @ ''/gallery.html''
      | Uuid4 s \<Rightarrow> False
      | St x \<Rightarrow> False
      | _ \<Rightarrow> True)"

text \<open>The pre-signed URLs that were produced: key and URL of every request that returned.\<close>

fun presigned_of :: "event \<Rightarrow> (string \<times> string) option" where
  "presigned_of (S3 (GeneratePresignedUrl m b k ex) (Inr url)) = Some (k, url)"
| "presigned_of _ = None"

definition presigned_urls :: "event list \<Rightarrow> (string \<times> string) list" where
  "presigned_urls evs = List.map_filter presigned_of evs"

text \<open>The store refuses the upload of every key that ends in \<^verbatim>\<open>a.png\<close>.\<close>

definition env_a_fails :: env where
  "env_a_fails =
     \<lparr>respond = (\<lambda>h c.
        case c of
          CreateMultipartUpload b k ct \<Rightarrow>
            (if endswith k ''a.png'' then Inl (ClientError ''AccessDenied'') else Inr ''upload-1'')
        | UploadPart b k n u body \<Rightarrow> Inr (''etag-'' @ replicate n (CHR ''i''))
        | GeneratePresignedUrl m b k ex \<Rightarrow> Inr (''https://'' @ b @ ''/'' @ k @ ''?sig'')
        | _ \<Rightarrow> Inr []),
      uuid4 = (\<lambda>h. ''6f1c'')\<rparr>"


section \<open>The face script\<close>

text \<open>
  \<^verbatim>\<open>face_detection.py\<close> is a module body: calls into the face library and the image
  library, one after the other. The libraries are an environment; the values they
  return are Python values, of which the script reads dictionaries and integers. A
  dictionary is an association list in insertion order, as \<^verbatim>\<open>.values()\<close> delivers it.
  Images and data frames are opaque.
\<close>

datatype pyval =
    PInt int
  | PStr string
  | PDict "(string \<times> pyval) list"
  | POther

datatype ('img, 'df) face_event =
    Verify string string
  | PrintVerify pyval string
  | PrintBox pyval pyval pyval pyval
  | Imread string
  | Rectangle "'img option" "int \<times> int" "int \<times> int" "int \<times> int \<times> int" int
  | Imshow 'img
  | Find string string
  | PrintFrame 'df

record ('img, 'df) face_lib =
  verify :: "string \<Rightarrow> string \<Rightarrow> exn + pyval"
  imread :: "string \<Rightarrow> 'img option"
  rectangle :: "'img \<Rightarrow> int \<times> int \<Rightarrow> int \<times> int \<Rightarrow> int \<times> int \<times> int \<Rightarrow> int \<Rightarrow> exn + 'img"
  find :: "string \<Rightarrow> string \<Rightarrow> exn + 'df list"

text \<open>Subscription \<^verbatim>\<open>d[k]\<close> of a Python value.\<close>

fun subscript :: "pyval \<Rightarrow> string \<Rightarrow> exn + pyval" where
  "subscript (PDict kvs) k =
     (case map_of kvs k of None \<Rightarrow> Inl (KeyError k) | Some v \<Rightarrow> Inr v)"
| "subscript _ k = Inl (OtherException ''TypeError'')"

text \<open>\<^verbatim>\<open>d.values()\<close>.\<close>

fun py_values :: "pyval \<Rightarrow> exn + pyval list" where
  "py_values (PDict kvs) = Inr (map snd kvs)"
| "py_values _ = Inl (OtherException ''AttributeError'')"

text \<open>The unpacking \<^verbatim>\<open>x, y, w, h = ...\<close> of exactly four values.\<close>

fun unpack4 :: "pyval list \<Rightarrow> exn + pyval \<times> pyval \<times> pyval \<times> pyval" where
  "unpack4 [x, y, w, h] = Inr (x, y, w, h)"
| "unpack4 _ = Inl (ValueError ''unpack'')"

text \<open>
  The coordinates \<^verbatim>\<open>(x, y)\<close> and \<^verbatim>\<open>(x + w, y + h)\<close> as the drawing call takes them: it
  accepts integers, and the line raises for any other values.
\<close>

fun corners :: "pyval \<Rightarrow> pyval \<Rightarrow> pyval \<Rightarrow> pyval \<Rightarrow> exn + (int \<times> int) \<times> (int \<times> int)" where
  "corners (PInt x) (PInt y) (PInt w) (PInt h) = Inr ((x, y), (x + w, y + h))"
| "corners _ _ _ _ = Inl (OtherException ''TypeError'')"

text \<open>
  The module body, line by line; it returns the events it has performed, in order, and
  the exception that ended it, if one did.
\<close>

definition face_script ::
  "('img, 'df) face_lib \<Rightarrow> (exn + unit) \<times> ('img, 'df) face_event list" where
  "face_script lib =
     (case verify lib ''/content/modi1.jpg'' ''/content/modi2.jpg'' of
        Inl e \<Rightarrow> (Inl e, [Verify ''/content/modi1.jpg'' ''/content/modi2.jpg''])
      | Inr out1 \<Rightarrow>
     (case verify lib ''/content/modi1.jpg'' ''/content/trump.jpg'' of
        Inl e \<Rightarrow> (Inl e, [Verify ''/content/modi1.jpg'' ''/content/modi2.jpg'',
                           Verify ''/content/modi1.jpg'' ''/content/trump.jpg''])
      | Inr out2 \<Rightarrow>
     (let t1 = [Verify ''/content/modi1.jpg'' ''/content/modi2.jpg'',
                Verify ''/content/modi1.jpg'' ''/content/trump.jpg'',
                PrintVerify out1 ''OUT 1'']
      in
      case subscript out1 ''facial_areas'' of Inl e \<Rightarrow> (Inl e, t1) | Inr areas \<Rightarrow>
      case subscript areas ''img1'' of Inl e \<Rightarrow> (Inl e, t1) | Inr area \<Rightarrow>
      case py_values area of Inl e \<Rightarrow> (Inl e, t1) | Inr vals \<Rightarrow>
      case unpack4 vals of Inl e \<Rightarrow> (Inl e, t1) | Inr (x, y, w, h) \<Rightarrow>
     (let t2 = t1 @ [PrintBox x y w h, Imread ''/content/modi1.jpg''];
          ig = imread lib ''/content/modi1.jpg''
      in
      case corners x y w h of Inl e \<Rightarrow> (Inl e, t2) | Inr (p1, p2) \<Rightarrow>
     (let t3 = t2 @ [Rectangle ig p1 p2 (0, 0, 255) 3]
      in
      case ig of None \<Rightarrow> (Inl (OtherException ''cv2.error''), t3) | Some img \<Rightarrow>
      case rectangle lib img p1 p2 (0, 0, 255) 3 of Inl e \<Rightarrow> (Inl e, t3) | Inr ig' \<Rightarrow>
     (let t4 = t3 @ [Imshow ig', Find ''/content/modi1.jpg'' ''/content/fold'']
      in
      case find lib ''/content/modi1.jpg'' ''/content/fold'' of Inl e \<Rightarrow> (Inl e, t4) | Inr out3 \<Rightarrow>
      case out3 of
        [] \<Rightarrow> (Inl (IndexError ''list index out of range''), t4)
      | d # ds \<Rightarrow> (Inr (), t4 @ [PrintFrame d])))))))"

text \<open>A library that finds a face at \<open>(10, 20)\<close> of width 30 and height 40.\<close>

definition lib_ok :: "(string, string) face_lib" where
  "lib_ok =
     \<lparr>verify = (\<lambda>p q. Inr (PDict
        [(''verified'', POther),
         (''facial_areas'',
            PDict [(''img1'', PDict [(''x'', PInt 10), (''y'', PInt 20), (''w'', PInt 30), (''h'', PInt 40)]),
                   (''img2'', PDict [(''x'', PInt 1), (''y'', PInt 2), (''w'', PInt 3), (''h'', PInt 4)])])])),
      imread = (\<lambda>p. Some p),
      rectangle = (\<lambda>img p1 p2 colour thickness. Inr (img @ ''+box'')),
      find = (\<lambda>p d. Inr [''matches''])\<rparr>"


section \<open>Basic facts about the operations\<close>

lemma trace_emit [simp]: "trace (emit ev w) = trace w @ [ev]"
  by (simp add: emit_def)

lemma fs_emit [simp]: "fs (emit ev w) = fs w"
  by (simp add: emit_def)

lemma s3_invoke_eq:
  "s3_invoke env c w = (respond env (trace w) c, emit (S3 c (respond env (trace w) c)) w)"
  by (simp add: s3_invoke_def Let_def)

lemma s3_invoke_D:
  assumes "s3_invoke env c w = (r, w')"
  shows "r = respond env (trace w) c" and "trace w' = trace w @ [S3 c r]" and "fs w' = fs w"
  using assms by (auto simp: s3_invoke_def Let_def)

lemma trace_write_file [simp]: "trace (write_file p d w) = trace w @ [WriteFile p d]"
  by (simp add: write_file_def)

lemma fs_write_file [simp]: "fs (write_file p d w) = (fs w)(p \<mapsto> d)"
  by (simp add: write_file_def)

lemma new_events_append [simp]: "trace w' = trace w @ evs \<Longrightarrow> new_events w w' = evs"
  by (simp add: new_events_def)

lemma s3_calls_simps [simp]:
  "s3_calls [] = []"
  "s3_calls (S3 c r # evs) = c # s3_calls evs"
  "s3_calls (Print m # evs) = s3_calls evs"
  "s3_calls (WriteFile p d # evs) = s3_calls evs"
  "s3_calls (RemoveFile p # evs) = s3_calls evs"
  "s3_calls (Uuid4 u # evs) = s3_calls evs"
  "s3_calls (St s # evs) = s3_calls evs"
  by (simp_all add: s3_calls_def List.map_filter_def)

lemma s3_calls_append [simp]: "s3_calls (xs @ ys) = s3_calls xs @ s3_calls ys"
  by (simp add: s3_calls_def List.map_filter_def)

lemma uploaded_parts_Nil [simp]: "uploaded_parts [] = []"
  by (simp add: uploaded_parts_def List.map_filter_def)

lemma uploaded_parts_Cons:
  "uploaded_parts (ev # evs) =
     (case part_of ev of None \<Rightarrow> uploaded_parts evs | Some p \<Rightarrow> p # uploaded_parts evs)"
  by (simp add: uploaded_parts_def map_filter_simps split: option.split)

lemma uploaded_parts_append [simp]:
  "uploaded_parts (xs @ ys) = uploaded_parts xs @ uploaded_parts ys"
  by (simp add: uploaded_parts_def List.map_filter_def)

lemma chunk_size_pos: "0 < chunk_size"
  by (simp add: chunk_size_def)

subsection \<open>The chunks of a file\<close>

lemma read_chunks_Nil [simp]: "read_chunks [] = []"
  by (simp add: read_chunks.simps)

lemma read_chunks_Cons:
  "rest \<noteq> [] \<Longrightarrow>
     read_chunks rest = take chunk_size rest # read_chunks (drop chunk_size rest)"
  using chunk_size_pos by (subst read_chunks.simps) simp

lemma concat_read_chunks: "concat (read_chunks rest) = rest"
proof (induction rest rule: read_chunks.induct)
  case (1 rest)
  show ?case
  proof (cases "rest = []")
    case True
    then show ?thesis by simp
  next
    case False
    then have "take chunk_size rest \<noteq> []"
      using chunk_size_pos by simp
    from "1.IH" [OF this] False show ?thesis
      by (simp add: read_chunks_Cons)
  qed
qed

lemma ceil_div_small: "0 < (n::nat) \<Longrightarrow> n \<le> c \<Longrightarrow> (n + c - 1) div c = 1"
proof -
  assume n: "0 < n" "n \<le> c"
  then obtain k where k: "n = Suc k" by (cases n) auto
  with n have "k < c" by simp
  then have "(k + c) div c = 1" by (simp add: div_add_self2)
  with k show ?thesis by simp
qed
lemma ceil_div_step:
  "0 < c \<Longrightarrow> (c::nat) < n \<Longrightarrow> (n + c - 1) div c = Suc ((n - c + c - 1) div c)"
proof -
  assume pos: "0 < c" and lt: "c < n"
  then obtain k where k: "n = Suc k + c"
    by (metis add.commute less_imp_Suc_add add_Suc)
  have "(n + c - 1) div c = ((k + c) + c) div c" using k by simp
  also have "\<dots> = Suc ((k + c) div c)"
    using pos div_add_self2 [of c "k + c"] by (simp only: Suc_eq_plus1)
  also have "k + c = n - c + c - 1" using k by simp
  finally show ?thesis .
qed

lemma length_read_chunks:
  "length (read_chunks rest) = (length rest + chunk_size - 1) div chunk_size"
proof (induction rest rule: read_chunks.induct)
  case (1 rest)
  show ?case
  proof (cases "rest = []")
    case True
    then show ?thesis using chunk_size_pos by simp
  next
    case False
    then have ne: "take chunk_size rest \<noteq> []"
      using chunk_size_pos by simp
    note IH = "1.IH" [OF ne]
    have rc: "read_chunks rest = take chunk_size rest # read_chunks (drop chunk_size rest)"
      using False by (rule read_chunks_Cons)
    show ?thesis
    proof (cases "length rest \<le> chunk_size")
      case True
      from False have "0 < length rest" by simp
      from ceil_div_small [OF this True] True rc show ?thesis
        by simp
    next
      case gt: False
      then have "chunk_size < length rest" by simp
      from ceil_div_step [OF chunk_size_pos this] IH rc show ?thesis
        by simp
    qed
  qed
qed

lemma read_chunks_full:
  "i < length (read_chunks rest) - 1 \<Longrightarrow> length (read_chunks rest ! i) = chunk_size"
proof (induction rest arbitrary: i rule: read_chunks.induct)
  case (1 rest)
  from "1.prems" have ne: "rest \<noteq> []" by (cases "rest = []") auto
  then have tk: "take chunk_size rest \<noteq> []"
    using chunk_size_pos by simp
  have rc: "read_chunks rest = take chunk_size rest # read_chunks (drop chunk_size rest)"
    using ne by (rule read_chunks_Cons)
  from "1.prems" rc have more: "read_chunks (drop chunk_size rest) \<noteq> []" by auto
  then have "drop chunk_size rest \<noteq> []" by (cases "drop chunk_size rest = []") auto
  then have long: "chunk_size < length rest" by simp
  show ?case
  proof (cases i)
    case 0
    with rc long show ?thesis by simp
  next
    case (Suc j)
    with "1.prems" rc have "j < length (read_chunks (drop chunk_size rest)) - 1" by simp
    from "1.IH" [OF tk this] Suc rc show ?thesis by simp
  qed
qed

lemma read_chunks_last:
  "rest \<noteq> [] \<Longrightarrow>
     length (last (read_chunks rest)) =
       length rest - (length (read_chunks rest) - 1) * chunk_size"
proof (induction rest rule: read_chunks.induct)
  case (1 rest)
  from "1.prems" have tk: "take chunk_size rest \<noteq> []"
    using chunk_size_pos by simp
  have rc: "read_chunks rest = take chunk_size rest # read_chunks (drop chunk_size rest)"
    using "1.prems" by (rule read_chunks_Cons)
  show ?case
  proof (cases "drop chunk_size rest = []")
    case True
    then show ?thesis using rc by simp
  next
    case False
    then have long: "chunk_size < length rest" by simp
    from False have more: "read_chunks (drop chunk_size rest) \<noteq> []"
      by (simp add: read_chunks_Cons)
    then have pos: "0 < length (read_chunks (drop chunk_size rest))" by simp
    have bound: "(length (read_chunks (drop chunk_size rest)) - 1) * chunk_size
                   \<le> length rest - chunk_size"
    proof -
      have "(length (drop chunk_size rest) + chunk_size - 1) div chunk_size * chunk_size
              \<le> length (drop chunk_size rest) + chunk_size - 1"
        by simp
      then have "length (read_chunks (drop chunk_size rest)) * chunk_size
              \<le> length (drop chunk_size rest) + chunk_size - 1"
        by (simp add: length_read_chunks)
      moreover obtain m where m: "length (read_chunks (drop chunk_size rest)) = Suc m"
        using pos by (cases "length (read_chunks (drop chunk_size rest))") auto
      ultimately have "m * chunk_size + chunk_size
              \<le> length (drop chunk_size rest) + chunk_size - 1"
        by simp
      then show ?thesis using m by simp
    qed
    obtain m where m: "length (read_chunks (drop chunk_size rest)) = Suc m"
      using pos by (cases "length (read_chunks (drop chunk_size rest))") auto
    from "1.IH" [OF tk False] m
    have "length (last (read_chunks (drop chunk_size rest))) =
            length rest - chunk_size - m * chunk_size"
      by simp
    moreover have "last (read_chunks rest) = last (read_chunks (drop chunk_size rest))"
      using rc more by simp
    moreover have "length (read_chunks rest) - 1 = Suc m"
      using rc m by simp
    ultimately show ?thesis
      by simp
  qed
qed


subsection \<open>Running the operations on concrete inputs\<close>

lemmas run_defs =
  upload_multiple_images_to_s3_def create_preview_html_def upload_file_def process_file_def
  generate_presigned_url_def multipart_upload_def multipart_upload_try_def
  multipart_upload_except_def s3_invoke_def os_remove_def write_file_def emit_def
  content_type_def endswith_def lower_def lower_char_def upload_parts.simps chunk_size_def
  Let_def new_events_def


subsection \<open>The part loop\<close>

lemma upload_parts_frame:
  "upload_parts env b k u n rest parts w = (r, w') \<Longrightarrow>
     fs w' = fs w \<and>
     (\<exists>evs. trace w' = trace w @ evs \<and>
        (\<forall>ev \<in> set evs. \<exists>i c r'. ev = S3 (UploadPart b k i u c) r') \<and>
        (\<forall>e. r = Inl e \<longrightarrow> (\<exists>i c. S3 (UploadPart b k i u c) (Inl e) \<in> set evs)))"
proof (induction env b k u n rest parts w rule: upload_parts.induct)
  case (1 env b k u n rest parts w)
  show ?case
  proof (cases "take chunk_size rest = []")
    case True
    with "1.prems" show ?thesis by (auto simp: upload_parts.simps)
  next
    case False
    obtain r1 w1 where inv:
      "s3_invoke env (UploadPart b k n u (take chunk_size rest)) w = (r1, w1)"
      by (cases "s3_invoke env (UploadPart b k n u (take chunk_size rest)) w")
    note d = s3_invoke_D [OF inv]
    show ?thesis
    proof (cases r1)
      case (Inl e)
      with "1.prems" False inv have "w' = w1" "r = Inl e"
        by (simp_all add: upload_parts.simps)
      with d Inl show ?thesis
        by (intro conjI exI [of _ "[S3 (UploadPart b k n u (take chunk_size rest)) r1]"]) auto
    next
      case (Inr etag)
      with "1.prems" False inv
      have rec: "upload_parts env b k u (n + 1) (drop chunk_size rest) (parts @ [(etag, n)]) w1
                   = (r, w')"
        by (simp add: upload_parts.simps)
      from "1.IH" [OF False inv [symmetric, unfolded Inr] refl rec]
      obtain evs where evs: "fs w' = fs w1" "trace w' = trace w1 @ evs"
        "\<forall>ev \<in> set evs. \<exists>i c r'. ev = S3 (UploadPart b k i u c) r'"
        "\<forall>e. r = Inl e \<longrightarrow> (\<exists>i c. S3 (UploadPart b k i u c) (Inl e) \<in> set evs)"
        by blast
      let ?evs = "S3 (UploadPart b k n u (take chunk_size rest)) r1 # evs"
      from evs d have "fs w' = fs w" "trace w' = trace w @ ?evs"
        by simp_all
      moreover from evs(3) have "\<forall>ev \<in> set ?evs. \<exists>i c r'. ev = S3 (UploadPart b k i u c) r'"
        by simp
      moreover from evs(4)
      have "\<forall>e. r = Inl e \<longrightarrow> (\<exists>i c. S3 (UploadPart b k i u c) (Inl e) \<in> set ?evs)"
        by (metis list.set_intros(2))
      ultimately show ?thesis
        by blast
    qed
  qed
qed

text \<open>
  When the loop ends without an exception, it has sent the chunks of the file in order,
  numbered from its first part number, and has collected one descriptor for each.
\<close>

lemma upload_parts_Inr:
  "upload_parts env b k u n rest parts w = (Inr ps, w') \<Longrightarrow>
     \<exists>evs. trace w' = trace w @ evs \<and>
       length evs = length (read_chunks rest) \<and>
       map fst (uploaded_parts evs) = [n ..< n + length (read_chunks rest)] \<and>
       map (fst \<circ> snd) (uploaded_parts evs) = read_chunks rest \<and>
       ps = parts @ map (\<lambda>(i, c, e). (e, i)) (uploaded_parts evs)"
proof (induction env b k u n rest parts w rule: upload_parts.induct)
  case (1 env b k u n rest parts w)
  show ?case
  proof (cases "take chunk_size rest = []")
    case True
    then have "rest = []" using chunk_size_pos by simp
    with "1.prems" show ?thesis by (simp add: upload_parts.simps)
  next
    case False
    then have ne: "rest \<noteq> []" by auto
    obtain r1 w1 where inv:
      "s3_invoke env (UploadPart b k n u (take chunk_size rest)) w = (r1, w1)"
      by (cases "s3_invoke env (UploadPart b k n u (take chunk_size rest)) w")
    note d = s3_invoke_D [OF inv]
    show ?thesis
    proof (cases r1)
      case (Inl e)
      with "1.prems" False inv show ?thesis
        by (simp add: upload_parts.simps)
    next
      case (Inr etag)
      with "1.prems" False inv
      have rec: "upload_parts env b k u (n + 1) (drop chunk_size rest) (parts @ [(etag, n)]) w1
                   = (Inr ps, w')"
        by (simp add: upload_parts.simps)
      let ?m = "length (read_chunks (drop chunk_size rest))"
      from "1.IH" [OF False inv [symmetric, unfolded Inr] refl rec]
      obtain evs where evs: "trace w' = trace w1 @ evs"
        "length evs = ?m"
        "map fst (uploaded_parts evs) = [n + 1 ..< n + 1 + ?m]"
        "map (fst \<circ> snd) (uploaded_parts evs) = read_chunks (drop chunk_size rest)"
        "ps = (parts @ [(etag, n)]) @ map (\<lambda>(i, c, e). (e, i)) (uploaded_parts evs)"
        by blast
      let ?ev = "S3 (UploadPart b k n u (take chunk_size rest)) (Inr etag)"
      have rc: "read_chunks rest = take chunk_size rest # read_chunks (drop chunk_size rest)"
        using ne by (rule read_chunks_Cons)
      have up: "uploaded_parts (?ev # evs) = (n, take chunk_size rest, etag) # uploaded_parts evs"
        by (simp add: uploaded_parts_Cons)
      have "[n ..< n + Suc ?m] = n # [Suc n ..< n + Suc ?m]"
        by (rule upt_conv_Cons) simp
      then have num: "[n ..< n + length (read_chunks rest)] = n # [n + 1 ..< n + 1 + ?m]"
        by (simp add: rc)
      have "trace w' = trace w @ (?ev # evs)"
        using evs(1) d(2) Inr by simp
      moreover have "length (?ev # evs) = length (read_chunks rest)"
        using evs(2) rc by simp
      moreover have "map fst (uploaded_parts (?ev # evs)) = [n ..< n + length (read_chunks rest)]"
        using evs(3) by (simp only: up num list.map fst_conv)
      moreover have "map (fst \<circ> snd) (uploaded_parts (?ev # evs)) = read_chunks rest"
        using evs(4) by (simp add: up rc)
      moreover have "ps = parts @ map (\<lambda>(i, c, e). (e, i)) (uploaded_parts (?ev # evs))"
        using evs(5) by (simp add: up)
      ultimately show ?thesis by blast
    qed
  qed
qed

subsection \<open>The try block and the handler of \<^verbatim>\<open>multipart_upload\<close>\<close>

lemma multipart_upload_try_create:
  assumes "multipart_upload_try env fp b folder obj w = (r, uid, w')"
  shows "uid = (case respond env (trace w) (CreateMultipartUpload b (folder @ ''/'' @ obj) (content_type obj))
                of Inl e \<Rightarrow> None | Inr u \<Rightarrow> Some u)"
  using assms
  by (auto simp: multipart_upload_try_def s3_invoke_eq Let_def
           split: sum.splits option.splits prod.splits)

text \<open>
  Every way the try block can end, with the events it has added: the create request
  failed; the file could not be opened; a part failed; or the complete request was sent.
\<close>

lemma multipart_upload_try_cases:
  assumes run: "multipart_upload_try env fp b folder obj w = (r, uid, w')"
  obtains
    (create_failed) e where
      "r = Inl e" "uid = None" "fs w' = fs w"
      "trace w' = trace w @
         [S3 (CreateMultipartUpload b (folder @ ''/'' @ obj) (content_type obj)) (Inl e)]"
      "respond env (trace w)
         (CreateMultipartUpload b (folder @ ''/'' @ obj) (content_type obj)) = Inl e"
  | (no_file) u where
      "r = Inl (FileNotFoundError fp)" "uid = Some u" "fs w' = fs w" "fs w fp = None"
      "trace w' = trace w @
         [S3 (CreateMultipartUpload b (folder @ ''/'' @ obj) (content_type obj)) (Inr u)]"
      "respond env (trace w)
         (CreateMultipartUpload b (folder @ ''/'' @ obj) (content_type obj)) = Inr u"
  | (part_failed) u dat evs e where
      "r = Inl e" "uid = Some u" "fs w' = fs w" "fs w fp = Some dat"
      "trace w' = trace w @
         S3 (CreateMultipartUpload b (folder @ ''/'' @ obj) (content_type obj)) (Inr u) # evs"
      "\<forall>ev \<in> set evs. \<exists>i c r'. ev = S3 (UploadPart b (folder @ ''/'' @ obj) i u c) r'"
      "respond env (trace w)
         (CreateMultipartUpload b (folder @ ''/'' @ obj) (content_type obj)) = Inr u"
      "dat \<noteq> []"
      "\<exists>i c. S3 (UploadPart b (folder @ ''/'' @ obj) i u c) (Inl e) \<in> set evs"
  | (completed) u dat evs ps rc where
      "r = (case rc of Inl e \<Rightarrow> Inl e | Inr x \<Rightarrow> Inr (folder @ ''/'' @ obj))"
      "uid = Some u" "fs w' = fs w" "fs w fp = Some dat"
      "trace w' = trace w @
         S3 (CreateMultipartUpload b (folder @ ''/'' @ obj) (content_type obj)) (Inr u) # evs @
         [S3 (CompleteMultipartUpload b (folder @ ''/'' @ obj) ps u) rc]"
      "\<forall>ev \<in> set evs. \<exists>i c r'. ev = S3 (UploadPart b (folder @ ''/'' @ obj) i u c) r'"
      "length evs = length (read_chunks dat)"
      "map fst (uploaded_parts evs) = [1 ..< 1 + length (read_chunks dat)]"
      "map (fst \<circ> snd) (uploaded_parts evs) = read_chunks dat"
      "ps = map (\<lambda>(i, c, e). (e, i)) (uploaded_parts evs)"
      "respond env (trace w)
         (CreateMultipartUpload b (folder @ ''/'' @ obj) (content_type obj)) = Inr u"
proof -
  let ?key = "folder @ ''/'' @ obj"
  let ?cr = "CreateMultipartUpload b ?key (content_type obj)"
  obtain r0 w0 where inv: "s3_invoke env ?cr w = (r0, w0)"
    by (cases "s3_invoke env ?cr w")
  note d0 = s3_invoke_D [OF inv]
  show thesis
  proof (cases r0)
    case (Inl e)
    with run inv have res: "r = Inl e" "uid = None" "w' = w0"
      by (simp_all add: multipart_upload_try_def)
    with d0 Inl have "fs w' = fs w" "trace w' = trace w @ [S3 ?cr (Inl e)]"
      "respond env (trace w) ?cr = Inl e"
      by simp_all
    with res(1,2) show thesis
      by (rule create_failed)
  next
    case (Inr u)
    note u = this
    have ru: "respond env (trace w) ?cr = Inr u"
      using d0(1) u by simp
    show thesis
    proof (cases "fs w fp")
      case None
      with run inv d0(3) u
      have res: "r = Inl (FileNotFoundError fp)" "uid = Some u" "w' = w0"
        by (simp_all add: multipart_upload_try_def)
      with d0 u have "fs w' = fs w" "trace w' = trace w @ [S3 ?cr (Inr u)]"
        by simp_all
      with res(1,2) None ru show thesis
        by (intro no_file)
    next
      case (Some dat)
      obtain r1 w1 where up: "upload_parts env b ?key u 1 dat [] w0 = (r1, w1)"
        by (cases "upload_parts env b ?key u 1 dat [] w0")
      from upload_parts_frame [OF up] obtain evs where
        f1: "fs w1 = fs w0" and t1: "trace w1 = trace w0 @ evs" and
        a1: "\<forall>ev \<in> set evs. \<exists>i c r'. ev = S3 (UploadPart b ?key i u c) r'" and
        a2: "\<forall>e. r1 = Inl e \<longrightarrow> (\<exists>i c. S3 (UploadPart b ?key i u c) (Inl e) \<in> set evs)"
        by blast
      show thesis
      proof (cases r1)
        case (Inl e)
        with run inv d0(3) u Some up have res: "r = Inl e" "uid = Some u" "w' = w1"
          by (simp_all add: multipart_upload_try_def)
        with f1 t1 d0 u have "fs w' = fs w" "trace w' = trace w @ S3 ?cr (Inr u) # evs"
          by simp_all
        moreover have "dat \<noteq> []"
          using up Inl by (auto simp: upload_parts.simps)
        moreover from a2 Inl
        have "\<exists>i c. S3 (UploadPart b ?key i u c) (Inl e) \<in> set evs"
          by simp
        ultimately show thesis
          using res(1,2) Some a1 ru by (intro part_failed)
      next
        case (Inr ps)
        obtain rc w2 where co:
          "s3_invoke env (CompleteMultipartUpload b ?key ps u) w1 = (rc, w2)"
          by (cases "s3_invoke env (CompleteMultipartUpload b ?key ps u) w1")
        note d2 = s3_invoke_D [OF co]
        have fp: "fs w0 fp = Some dat"
          using d0(3) Some by simp
        have "multipart_upload_try env fp b folder obj w =
                ((case rc of Inl e \<Rightarrow> Inl e | Inr x \<Rightarrow> Inr ?key), Some u, w2)"
          using inv [unfolded u] fp up [unfolded Inr] co
          unfolding multipart_upload_try_def Let_def
          by (cases rc) simp_all
        with run
        have res: "r = (case rc of Inl e \<Rightarrow> Inl e | Inr x \<Rightarrow> Inr ?key)"
          "uid = Some u" "w' = w2"
          by simp_all
        from upload_parts_Inr [OF up [unfolded Inr]] t1
        have ex: "length evs = length (read_chunks dat)"
          "map fst (uploaded_parts evs) = [1 ..< 1 + length (read_chunks dat)]"
          "map (fst \<circ> snd) (uploaded_parts evs) = read_chunks dat"
          "ps = map (\<lambda>(i, c, e). (e, i)) (uploaded_parts evs)"
          by auto
        have tr: "trace w' = trace w @ S3 ?cr (Inr u) # evs @
                    [S3 (CompleteMultipartUpload b ?key ps u) rc]"
          using res(3) d2(2) t1 d0(2) u by simp
        have fsw: "fs w' = fs w"
          using res(3) d2(3) f1 d0(3) by simp
        from res(1,2) fsw Some tr a1 ex ru show thesis
          by (rule completed)
      qed
    qed
  qed
qed

lemma multipart_upload_handler:
  assumes "multipart_upload_try env fp b folder obj w = (r, uid, w1)"
  shows "fs (snd (multipart_upload env fp b folder obj w)) = fs w1"
    and "trace (snd (multipart_upload env fp b folder obj w)) = trace w1 @
      (case r of
         Inr x \<Rightarrow> []
       | Inl e \<Rightarrow>
           Print (''Error uploading '' @ obj @ '': '' @ str_exn e) #
           (case uid of
              None \<Rightarrow> []
            | Some u \<Rightarrow>
                [S3 (AbortMultipartUpload b (folder @ ''/'' @ obj) u)
                    (respond env
                       (trace w1 @ [Print (''Error uploading '' @ obj @ '': '' @ str_exn e)])
                       (AbortMultipartUpload b (folder @ ''/'' @ obj) u))]))"
    and "fst (multipart_upload env fp b folder obj w) =
      (case r of
         Inr x \<Rightarrow> Inr (Some x)
       | Inl e \<Rightarrow>
           (case uid of
              None \<Rightarrow> Inr None
            | Some u \<Rightarrow>
                (case respond env
                       (trace w1 @ [Print (''Error uploading '' @ obj @ '': '' @ str_exn e)])
                       (AbortMultipartUpload b (folder @ ''/'' @ obj) u) of
                   Inl e' \<Rightarrow> Inl e'
                 | Inr x \<Rightarrow> Inr None)))"
  using assms
  by (auto simp: multipart_upload_def multipart_upload_except_def s3_invoke_eq Let_def
           split: sum.splits option.splits)


lemma list_all_upload_event_handler:
  assumes "multipart_upload_try env fp b folder obj w = (r, uid, w1)"
  obtains h where
    "trace (snd (multipart_upload env fp b folder obj w)) = trace w1 @ h"
    "list_all (upload_event (folder @ ''/'' @ obj)) h"
    "s3_calls h = [] \<or> (\<exists>u. s3_calls h = [AbortMultipartUpload b (folder @ ''/'' @ obj) u])"
proof -
  let ?h = "case r of
         Inr x \<Rightarrow> []
       | Inl e \<Rightarrow>
           Print (''Error uploading '' @ obj @ '': '' @ str_exn e) #
           (case uid of
              None \<Rightarrow> []
            | Some u \<Rightarrow>
                [S3 (AbortMultipartUpload b (folder @ ''/'' @ obj) u)
                    (respond env
                       (trace w1 @ [Print (''Error uploading '' @ obj @ '': '' @ str_exn e)])
                       (AbortMultipartUpload b (folder @ ''/'' @ obj) u))])"
  have "trace (snd (multipart_upload env fp b folder obj w)) = trace w1 @ ?h"
    by (rule multipart_upload_handler(2) [OF assms])
  moreover have "list_all (upload_event (folder @ ''/'' @ obj)) ?h"
    by (cases r; cases uid) (simp_all add: upload_event_def is_multipart_def)
  moreover have "s3_calls ?h = [] \<or>
      (\<exists>u. s3_calls ?h = [AbortMultipartUpload b (folder @ ''/'' @ obj) u])"
    by (cases r; cases uid) simp_all
  ultimately show thesis
    by (rule that)
qed

text \<open>
  The events of one call of \<^verbatim>\<open>multipart_upload\<close>: the create request first, then only
  events of this upload; the local files are left as they were.
\<close>

lemma multipart_upload_events:
  obtains rest where
    "trace (snd (multipart_upload env fp b folder obj w)) =
       trace w @
       S3 (CreateMultipartUpload b (folder @ ''/'' @ obj) (content_type obj))
          (respond env (trace w)
             (CreateMultipartUpload b (folder @ ''/'' @ obj) (content_type obj))) # rest"
    "list_all (upload_event (folder @ ''/'' @ obj)) rest"
    "fs (snd (multipart_upload env fp b folder obj w)) = fs w"
proof -
  let ?key = "folder @ ''/'' @ obj"
  let ?cr = "CreateMultipartUpload b ?key (content_type obj)"
  obtain r uid w1 where run: "multipart_upload_try env fp b folder obj w = (r, uid, w1)"
    by (cases "multipart_upload_try env fp b folder obj w")
  obtain h where h: "trace (snd (multipart_upload env fp b folder obj w)) = trace w1 @ h"
    "list_all (upload_event ?key) h"
    by (rule list_all_upload_event_handler [OF run])
  note fsh = multipart_upload_handler(1) [OF run]
  have part: "list_all (upload_event ?key) evs"
    if "\<forall>ev \<in> set evs. \<exists>i c r'. ev = S3 (UploadPart b ?key i u c) r'" for evs u
    using that by (auto simp: list_all_iff upload_event_def is_multipart_def)
  from run show thesis
  proof (cases rule: multipart_upload_try_cases)
    case (create_failed e)
    with h fsh show thesis
      by (intro that [of h]) simp_all
  next
    case (no_file u)
    with h fsh show thesis
      by (intro that [of h]) simp_all
  next
    case (part_failed u dat evs e)
    with h fsh part [OF part_failed(6)] show thesis
      by (intro that [of "evs @ h"]) simp_all
  next
    case (completed u dat evs ps rc)
    with h fsh part [OF completed(6)] show thesis
      by (intro that [of "evs @ S3 (CompleteMultipartUpload b ?key ps u) rc # h"])
         (simp_all add: upload_event_def is_multipart_def)
  qed
qed

lemma no_create_in_upload_events:
  "list_all (upload_event k) evs \<Longrightarrow> filter is_create (s3_calls evs) = []"
proof (induction evs)
  case Nil
  then show ?case by simp
next
  case (Cons ev evs)
  then show ?case
    by (cases ev) (simp_all add: upload_event_def)
qed

section \<open>The content type of an upload\<close>

lemma endswith_suffix: "endswith s suf \<longleftrightarrow> suffix suf s"
proof
  assume "endswith s suf"
  then have "s = take (length s - length suf) s @ suf"
    by (metis append_take_drop_id endswith_def)
  then show "suffix suf s"
    by (rule suffixI)
next
  assume "suffix suf s"
  then obtain zs where "s = zs @ suf"
    by (auto simp: suffix_def)
  then show "endswith s suf"
    by (simp add: endswith_def)
qed

lemma endswith_lower:
  "endswith (lower obj) suf \<longleftrightarrow> (\<exists>s. suffix s obj \<and> lower s = suf)"
proof
  assume "endswith (lower obj) suf"
  then obtain zs where zs: "map lower_char obj = zs @ suf"
    by (auto simp: endswith_suffix suffix_def lower_def)
  let ?s = "drop (length zs) obj"
  have "suffix ?s obj"
    by (rule suffix_drop)
  moreover have "lower ?s = suf"
    using zs by (simp add: lower_def drop_map [symmetric])
  ultimately show "\<exists>s. suffix s obj \<and> lower s = suf"
    by blast
next
  assume "\<exists>s. suffix s obj \<and> lower s = suf"
  then obtain s zs where "obj = zs @ s" "lower s = suf"
    by (auto simp: suffix_def)
  then show "endswith (lower obj) suf"
    by (auto simp: endswith_suffix suffix_def lower_def)
qed

text \<open>
  C8. For every object name, \<^verbatim>\<open>multipart_upload\<close> begins with the one create request of
  the call, and that request carries the content type \<^verbatim>\<open>image/jpeg\<close> when the name ends,
  ignoring case, in \<^verbatim>\<open>.jpg\<close> or \<^verbatim>\<open>.jpeg\<close>, and \<^verbatim>\<open>image/png\<close> for every other name. The
  contents of the file play no part.
\<close>

theorem multipart_upload_content_type:
  "\<exists>r rest.
     new_events w (snd (multipart_upload env fp b folder obj w)) =
       S3 (CreateMultipartUpload b (folder @ ''/'' @ obj)
             (if (\<exists>s. suffix s obj \<and> (lower s = ''.jpg'' \<or> lower s = ''.jpeg''))
              then ''image/jpeg'' else ''image/png'')) r # rest \<and>
     filter is_create (s3_calls rest) = []"
proof -
  have ct: "content_type obj =
      (if (\<exists>s. suffix s obj \<and> (lower s = ''.jpg'' \<or> lower s = ''.jpeg''))
       then ''image/jpeg'' else ''image/png'')"
    unfolding content_type_def endswith_lower by (rule if_cong) auto
  obtain rest where rest:
    "trace (snd (multipart_upload env fp b folder obj w)) =
       trace w @
       S3 (CreateMultipartUpload b (folder @ ''/'' @ obj) (content_type obj))
          (respond env (trace w)
             (CreateMultipartUpload b (folder @ ''/'' @ obj) (content_type obj))) # rest"
    "list_all (upload_event (folder @ ''/'' @ obj)) rest"
    by (rule multipart_upload_events)
  from rest(1) have "new_events w (snd (multipart_upload env fp b folder obj w)) =
       S3 (CreateMultipartUpload b (folder @ ''/'' @ obj) (content_type obj))
          (respond env (trace w)
             (CreateMultipartUpload b (folder @ ''/'' @ obj) (content_type obj))) # rest"
    by (rule new_events_append)
  with no_create_in_upload_events [OF rest(2)] show ?thesis
    unfolding ct by blast
qed


section \<open>The parts of an upload\<close>

lemma uploaded_parts_none:
  "filter is_upload_part (s3_calls evs) = [] \<Longrightarrow> uploaded_parts evs = []"
proof (induction evs)
  case Nil
  then show ?case by simp
next
  case (Cons ev evs)
  show ?case
  proof (cases ev)
    case (S3 c r)
    with Cons show ?thesis
      by (cases c) (simp_all add: uploaded_parts_Cons split: if_splits)
  qed (use Cons in \<open>simp_all add: uploaded_parts_Cons\<close>)
qed

lemma upload_part_events:
  assumes "\<forall>ev \<in> set evs. \<exists>i c r'. ev = S3 (UploadPart b k i u c) r'"
  shows "filter is_upload_part (s3_calls evs) = s3_calls evs"
    and "length (s3_calls evs) = length evs"
    and "filter is_complete (s3_calls evs) = []"
  using assms by (induction evs) auto

text \<open>
  C9. For a zero-byte input file, once the create request has opened a multipart
  session, \<^verbatim>\<open>multipart_upload\<close> sends no \<^verbatim>\<open>upload_part\<close> request: the request that
  follows the create request is \<^verbatim>\<open>complete_multipart_upload\<close> with the empty list of
  parts.
\<close>

theorem zero_byte_upload:
  assumes "fs w fp = Some []"
    and "respond env (trace w)
           (CreateMultipartUpload b (folder @ ''/'' @ obj) (content_type obj)) = Inr u"
  shows "\<exists>rc rest.
     new_events w (snd (multipart_upload env fp b folder obj w)) =
       S3 (CreateMultipartUpload b (folder @ ''/'' @ obj) (content_type obj)) (Inr u) #
       S3 (CompleteMultipartUpload b (folder @ ''/'' @ obj) [] u) rc # rest \<and>
     filter is_upload_part
       (s3_calls (new_events w (snd (multipart_upload env fp b folder obj w)))) = []"
proof -
  obtain r uid w1 where run: "multipart_upload_try env fp b folder obj w = (r, uid, w1)"
    by (cases "multipart_upload_try env fp b folder obj w")
  obtain h where h: "trace (snd (multipart_upload env fp b folder obj w)) = trace w1 @ h"
    "s3_calls h = [] \<or> (\<exists>u. s3_calls h = [AbortMultipartUpload b (folder @ ''/'' @ obj) u])"
    by (rule list_all_upload_event_handler [OF run])
  from h(2) have nh: "filter is_upload_part (s3_calls h) = []"
    by auto
  from run show ?thesis
  proof (cases rule: multipart_upload_try_cases)
    case (create_failed e)
    with assms(2) show ?thesis by simp
  next
    case (no_file u')
    with assms(1) show ?thesis by simp
  next
    case (part_failed u' dat evs e)
    with assms(1) show ?thesis by simp
  next
    case (completed u' dat evs ps rc)
    from completed(4) assms(1) have "dat = []" by simp
    with completed(7,10) have "evs = []" "ps = []" by simp_all
    moreover from completed(11) assms(2) have "u' = u" by simp
    ultimately have "trace (snd (multipart_upload env fp b folder obj w)) =
        trace w @
        S3 (CreateMultipartUpload b (folder @ ''/'' @ obj) (content_type obj)) (Inr u) #
        S3 (CompleteMultipartUpload b (folder @ ''/'' @ obj) [] u) rc # h"
      using completed(5) h(1) by simp
    then have "new_events w (snd (multipart_upload env fp b folder obj w)) =
        S3 (CreateMultipartUpload b (folder @ ''/'' @ obj) (content_type obj)) (Inr u) #
        S3 (CompleteMultipartUpload b (folder @ ''/'' @ obj) [] u) rc # h"
      by (rule new_events_append)
    with nh show ?thesis by simp
  qed
qed

lemma w_zero_events:
  "new_events w_zero (snd (multipart_upload env_ok ''z.png'' ''bkt'' ''uploads/6f1c'' ''z.png'' w_zero)) =
     [S3 (CreateMultipartUpload ''bkt'' ''uploads/6f1c/z.png'' ''image/png'') (Inr ''upload-1''),
      S3 (CompleteMultipartUpload ''bkt'' ''uploads/6f1c/z.png'' [] ''upload-1'') (Inr [])]"
  by (simp add: new_events_def multipart_upload_def multipart_upload_try_def s3_invoke_def
        emit_def w_zero_def env_ok_def content_type_def endswith_def lower_def lower_char_def
        upload_parts.simps Let_def)

theorem zero_byte_upload_witness:
  "fs w_zero ''z.png'' = Some [] \<and>
   respond env_ok (trace w_zero)
     (CreateMultipartUpload ''bkt'' (''uploads/6f1c'' @ ''/'' @ ''z.png'') (content_type ''z.png''))
     = Inr ''upload-1'' \<and>
   s3_calls (new_events w_zero
      (snd (multipart_upload env_ok ''z.png'' ''bkt'' ''uploads/6f1c'' ''z.png'' w_zero))) =
     [CreateMultipartUpload ''bkt'' ''uploads/6f1c/z.png'' ''image/png'',
      CompleteMultipartUpload ''bkt'' ''uploads/6f1c/z.png'' [] ''upload-1'']"
proof -
  have h1: "fs w_zero ''z.png'' = Some []"
    by (simp add: w_zero_def)
  have h2: "respond env_ok (trace w_zero)
     (CreateMultipartUpload ''bkt'' (''uploads/6f1c'' @ ''/'' @ ''z.png'') (content_type ''z.png''))
     = Inr ''upload-1''"
    by (simp add: env_ok_def)
  from zero_byte_upload [OF h1 h2] h1 h2 show ?thesis
    by (simp add: w_zero_events)
qed


lemma no_complete_in_handler:
  assumes "s3_calls h = [] \<or> (\<exists>u. s3_calls h = [AbortMultipartUpload b k u])"
  shows "S3 (CompleteMultipartUpload b' k' ps u') rc \<notin> set h"
proof
  assume "S3 (CompleteMultipartUpload b' k' ps u') rc \<in> set h"
  then obtain xs ys where "h = xs @ S3 (CompleteMultipartUpload b' k' ps u') rc # ys"
    by (auto simp: in_set_conv_decomp)
  then have "CompleteMultipartUpload b' k' ps u' \<in> set (s3_calls h)"
    by simp
  with assms show False
    by auto
qed

text \<open>
  C2. For every input file of \<open>s > 0\<close> bytes, whenever \<^verbatim>\<open>multipart_upload\<close> reaches
  \<^verbatim>\<open>complete_multipart_upload\<close>, it has sent \<open>n = ceil (s / 5 MiB)\<close> \<^verbatim>\<open>upload_part\<close>
  requests, all of which returned; their bodies are the file in order, each of exactly
  \<open>5 * 1024 * 1024\<close> bytes but the last, which holds the remainder; their part numbers
  are \<open>1, 2, ..., n\<close> in upload order; and the part descriptors passed to
  \<^verbatim>\<open>complete_multipart_upload\<close> pair each part number with the ETag returned for that
  part.
\<close>

theorem multipart_upload_parts:
  assumes "fs w fp = Some dat"
    and "0 < length dat"
    and "S3 (CompleteMultipartUpload b' k' ps u') rc
           \<in> set (new_events w (snd (multipart_upload env fp b folder obj w)))"
  shows "let n = (length dat + 5 * 1024 * 1024 - 1) div (5 * 1024 * 1024);
             new = new_events w (snd (multipart_upload env fp b folder obj w));
             ups = uploaded_parts new
         in length (filter is_upload_part (s3_calls new)) = n \<and>
            length ups = n \<and>
            map fst ups = [1 ..< n + 1] \<and>
            concat (map (fst \<circ> snd) ups) = dat \<and>
            (\<forall>i < n - 1. length (fst (snd (ups ! i))) = 5 * 1024 * 1024) \<and>
            length (fst (snd (last ups))) = length dat - (n - 1) * (5 * 1024 * 1024) \<and>
            ps = map (\<lambda>(i, body, etag). (etag, i)) ups"
proof -
  let ?key = "folder @ ''/'' @ obj"
  let ?cr = "CreateMultipartUpload b ?key (content_type obj)"
  let ?w' = "snd (multipart_upload env fp b folder obj w)"
  obtain r uid w1 where run: "multipart_upload_try env fp b folder obj w = (r, uid, w1)"
    by (cases "multipart_upload_try env fp b folder obj w")
  obtain h where h: "trace ?w' = trace w1 @ h"
    "s3_calls h = [] \<or> (\<exists>u. s3_calls h = [AbortMultipartUpload b ?key u])"
    by (rule list_all_upload_event_handler [OF run])
  note nc = no_complete_in_handler [OF h(2)]
  from h(2) have hp: "filter is_upload_part (s3_calls h) = []"
    by auto
  then have hu: "uploaded_parts h = []"
    by (rule uploaded_parts_none)
  from run show ?thesis
  proof (cases rule: multipart_upload_try_cases)
    case (create_failed e)
    with h(1) have "new_events w ?w' = S3 ?cr (Inl e) # h"
      by (intro new_events_append) simp
    with assms(3) nc show ?thesis by simp
  next
    case (no_file u)
    with assms(1) show ?thesis by simp
  next
    case (part_failed u dat' evs e)
    with h(1) have "new_events w ?w' = S3 ?cr (Inr u) # evs @ h"
      by (intro new_events_append) simp
    with assms(3) nc part_failed(6) show ?thesis by auto
  next
    case (completed u dat' evs ps' rc')
    from completed(4) assms(1) have dat: "dat' = dat" by simp
    from completed(5) h(1)
    have new: "new_events w ?w' =
        S3 ?cr (Inr u) # evs @ S3 (CompleteMultipartUpload b ?key ps' u) rc' # h"
      by (intro new_events_append) simp
    from assms(3) nc completed(6) have ps: "ps = ps'"
      unfolding new by auto
    note pe = upload_part_events [OF completed(6)]
    have n: "length (read_chunks dat) = (length dat + 5 * 1024 * 1024 - 1) div (5 * 1024 * 1024)"
      using length_read_chunks [of dat] by (simp add: chunk_size_def)
    have ups: "uploaded_parts (new_events w ?w') = uploaded_parts evs"
      unfolding new by (simp add: uploaded_parts_Cons hu)
    have calls: "length (filter is_upload_part (s3_calls (new_events w ?w'))) =
                 length (read_chunks dat)"
      unfolding new using pe completed(7) hp dat by simp
    have bodies: "map (fst \<circ> snd) (uploaded_parts evs) = read_chunks dat"
      using completed(9) dat by simp
    then have len: "length (uploaded_parts evs) = length (read_chunks dat)"
      by (metis length_map)
    have nums: "map fst (uploaded_parts evs) = [1 ..< length (read_chunks dat) + 1]"
      using completed(8) dat by simp
    have cat: "concat (map (fst \<circ> snd) (uploaded_parts evs)) = dat"
      using bodies by (simp add: concat_read_chunks)
    have full: "length (fst (snd (uploaded_parts evs ! i))) = 5 * 1024 * 1024"
      if "i < length (read_chunks dat) - 1" for i
    proof -
      from that len have "i < length (uploaded_parts evs)" by simp
      then have "fst (snd (uploaded_parts evs ! i)) =
                 map (fst \<circ> snd) (uploaded_parts evs) ! i"
        by simp
      with bodies read_chunks_full [OF that] show ?thesis
        by (simp add: chunk_size_def)
    qed
    have ne: "dat \<noteq> []"
      using assms(2) by simp
    then have "read_chunks dat \<noteq> []"
      by (simp add: read_chunks_Cons)
    with len have une: "uploaded_parts evs \<noteq> []"
      by auto
    then have "fst (snd (last (uploaded_parts evs))) =
               last (map (fst \<circ> snd) (uploaded_parts evs))"
      by (simp add: last_map)
    with bodies read_chunks_last [OF ne]
    have lst: "length (fst (snd (last (uploaded_parts evs)))) =
               length dat - (length (read_chunks dat) - 1) * (5 * 1024 * 1024)"
      by (simp add: chunk_size_def)
    have desc: "ps = map (\<lambda>(i, body, etag). (etag, i)) (uploaded_parts evs)"
      using completed(10) ps by simp
    from calls len nums cat full lst desc show ?thesis
      unfolding Let_def ups n [symmetric] by blast
  qed
qed

lemma w_big_events:
  "new_events w_big
     (snd (multipart_upload env_ok ''big.png'' ''bkt'' ''uploads/6f1c'' ''big.png'' w_big)) =
     [S3 (CreateMultipartUpload ''bkt'' ''uploads/6f1c/big.png'' ''image/png'') (Inr ''upload-1''),
      S3 (UploadPart ''bkt'' ''uploads/6f1c/big.png'' 1 ''upload-1''
            (replicate 5242880 (CHR ''x''))) (Inr ''etag-i''),
      S3 (UploadPart ''bkt'' ''uploads/6f1c/big.png'' 2 ''upload-1'' ''x'') (Inr ''etag-ii''),
      S3 (CompleteMultipartUpload ''bkt'' ''uploads/6f1c/big.png''
            [(''etag-i'', 1), (''etag-ii'', 2)] ''upload-1'') (Inr [])]"
  by (simp add: new_events_def multipart_upload_def multipart_upload_try_def s3_invoke_def
        emit_def w_big_def env_ok_def content_type_def endswith_def lower_def lower_char_def
        upload_parts.simps Let_def chunk_size_def numeral_2_eq_2)

theorem multipart_upload_parts_witness:
  "fs w_big ''big.png'' = Some (replicate 5242881 (CHR ''x'')) \<and>
   0 < length (replicate 5242881 (CHR ''x'')) \<and>
   S3 (CompleteMultipartUpload ''bkt'' ''uploads/6f1c/big.png''
         [(''etag-i'', 1), (''etag-ii'', 2)] ''upload-1'') (Inr [])
     \<in> set (new_events w_big
         (snd (multipart_upload env_ok ''big.png'' ''bkt'' ''uploads/6f1c'' ''big.png'' w_big))) \<and>
   map fst (uploaded_parts (new_events w_big
         (snd (multipart_upload env_ok ''big.png'' ''bkt'' ''uploads/6f1c'' ''big.png'' w_big))))
     = [1, 2] \<and>
   length (fst (snd (last (uploaded_parts (new_events w_big
         (snd (multipart_upload env_ok ''big.png'' ''bkt'' ''uploads/6f1c'' ''big.png'' w_big)))))))
     = 1"
proof -
  have h1: "fs w_big ''big.png'' = Some (replicate 5242881 (CHR ''x''))"
    by (simp add: w_big_def)
  have h2: "0 < length (replicate 5242881 (CHR ''x''))"
    by simp
  have h3: "S3 (CompleteMultipartUpload ''bkt'' ''uploads/6f1c/big.png''
         [(''etag-i'', 1), (''etag-ii'', 2)] ''upload-1'') (Inr [])
     \<in> set (new_events w_big
         (snd (multipart_upload env_ok ''big.png'' ''bkt'' ''uploads/6f1c'' ''big.png'' w_big)))"
    by (simp add: w_big_events)
  from multipart_upload_parts [OF h1 h2 h3] h1 h2 h3 show ?thesis
    by (simp add: Let_def w_big_events uploaded_parts_Cons)
qed


section \<open>The loop over the files\<close>

lemma multipart_upload_result:
  "fst (multipart_upload env fp b folder obj w) = Inr (Some p) \<Longrightarrow> p = folder @ ''/'' @ obj"
proof -
  assume res: "fst (multipart_upload env fp b folder obj w) = Inr (Some p)"
  obtain r uid w1 where run: "multipart_upload_try env fp b folder obj w = (r, uid, w1)"
    by (cases "multipart_upload_try env fp b folder obj w")
  from multipart_upload_handler(3) [OF run] res have r: "r = Inr p"
    by (cases r; cases uid) (auto split: sum.splits)
  from run show ?thesis
  proof (cases rule: multipart_upload_try_cases)
    case (completed u dat evs ps rc)
    with r show ?thesis by (cases rc) simp_all
  qed (use r in simp_all)
qed

lemma multipart_upload_raises:
  assumes "fst (multipart_upload env fp b folder obj w) = Inl e"
  shows "\<exists>c. S3 c (Inl e) \<in> set (new_events w (snd (multipart_upload env fp b folder obj w)))"
proof -
  obtain r uid w1 where run: "multipart_upload_try env fp b folder obj w = (r, uid, w1)"
    by (cases "multipart_upload_try env fp b folder obj w")
  note hd = multipart_upload_handler [OF run]
  from hd(3) assms obtain e0 u where r: "r = Inl e0" and u: "uid = Some u"
    by (cases r; cases uid) auto
  let ?ab = "AbortMultipartUpload b (folder @ ''/'' @ obj) u"
  let ?m = "Print (''Error uploading '' @ obj @ '': '' @ str_exn e0)"
  from hd(3) assms r u have ab: "respond env (trace w1 @ [?m]) ?ab = Inl e"
    by (cases "respond env (trace w1 @ [?m]) ?ab") simp_all
  from hd(2) r u ab
  have tr: "trace (snd (multipart_upload env fp b folder obj w)) = trace w1 @ [?m, S3 ?ab (Inl e)]"
    by simp
  obtain rest where "trace (snd (multipart_upload env fp b folder obj w)) =
       trace w @
       S3 (CreateMultipartUpload b (folder @ ''/'' @ obj) (content_type obj))
          (respond env (trace w)
             (CreateMultipartUpload b (folder @ ''/'' @ obj) (content_type obj))) # rest"
    by (rule multipart_upload_events)
  then have "new_events w (snd (multipart_upload env fp b folder obj w)) =
      drop (length (trace w)) (trace w1 @ [?m, S3 ?ab (Inl e)])"
    unfolding new_events_def tr by simp
  moreover from run have "length (trace w) \<le> length (trace w1)"
    by (cases rule: multipart_upload_try_cases) simp_all
  ultimately have "new_events w (snd (multipart_upload env fp b folder obj w)) =
      drop (length (trace w)) (trace w1) @ [?m, S3 ?ab (Inl e)]"
    by simp
  then show ?thesis
    by auto
qed

lemma generate_presigned_url_cases:
  obtains pr where
    "trace (snd (generate_presigned_url env b k ex w)) =
       trace w @
       S3 (GeneratePresignedUrl ''get_object'' b k ex)
          (respond env (trace w) (GeneratePresignedUrl ''get_object'' b k ex)) # pr"
    "pr = [] \<or> (\<exists>m. pr = [Print m])"
    "fs (snd (generate_presigned_url env b k ex w)) = fs w"
    "fst (generate_presigned_url env b k ex w) =
       (case respond env (trace w) (GeneratePresignedUrl ''get_object'' b k ex) of
          Inr url \<Rightarrow> Inr (Some url)
        | Inl (ClientError m) \<Rightarrow> Inr None
        | Inl e \<Rightarrow> Inl e)"
    "(\<exists>url. respond env (trace w) (GeneratePresignedUrl ''get_object'' b k ex) = Inr url)
       \<longrightarrow> pr = []"
proof -
  let ?c = "GeneratePresignedUrl ''get_object'' b k ex"
  show thesis
  proof (cases "respond env (trace w) ?c")
    case (Inr url)
    then show thesis
      by (intro that [of "[]"]) (simp_all add: generate_presigned_url_def s3_invoke_eq)
  next
    case (Inl e)
    show thesis
    proof (cases "\<exists>m. e = ClientError m")
      case True
      then obtain m where "e = ClientError m" by blast
      with Inl show thesis
        by (intro that [of "[Print (''Error generating pre-signed URL: '' @ m)]"])
           (simp_all add: generate_presigned_url_def s3_invoke_eq)
    next
      case False
      with Inl show thesis
        by (intro that [of "[]"]; cases e)
           (simp_all add: generate_presigned_url_def s3_invoke_eq)
    qed
  qed
qed

lemma os_remove_present:
  "fs w p = Some d \<Longrightarrow>
     os_remove p w = (Inr (), emit (RemoveFile p) (w\<lparr>fs := (fs w)(p := None)\<rparr>))"
  by (simp add: os_remove_def)

text \<open>
  One turn of the loop, whatever the object store answers: the file is written, the
  multipart upload runs, a pre-signed URL is requested exactly when the upload has
  returned an object path, and the file is removed unless an exception has left the
  turn.
\<close>

lemma process_file_trace:
  obtains up ps rm where
    "trace (snd (multipart_upload env (name f) b folder (name f)
                   (write_file (name f) (content f) w))) =
       trace w @ WriteFile (name f) (content f) # up"
    "trace (snd (process_file env f b folder links w)) =
       trace w @ WriteFile (name f) (content f) # up @ ps @ rm"
    "list_all (presign_event b (folder @ ''/'' @ name f)) ps"
    "(ps \<noteq> []) =
       (\<exists>p. fst (multipart_upload env (name f) b folder (name f)
                   (write_file (name f) (content f) w)) = Inr (Some p))"
    "(\<exists>ls. fst (process_file env f b folder links w) = Inr ls) \<and>
       rm = [RemoveFile (name f)] \<and>
       fs (snd (process_file env f b folder links w)) = (fs w)(name f := None)
     \<or>
     (\<exists>e. fst (process_file env f b folder links w) = Inl e) \<and>
       rm = [] \<and>
       fs (snd (process_file env f b folder links w)) = (fs w)(name f \<mapsto> content f)"
    "ps = [] \<or>
     (\<exists>pr. ps = S3 (GeneratePresignedUrl ''get_object'' b (folder @ ''/'' @ name f) 3600)
                    (respond env (trace w @ WriteFile (name f) (content f) # up)
                       (GeneratePresignedUrl ''get_object'' b (folder @ ''/'' @ name f) 3600)) # pr \<and>
           (pr = [] \<or> (\<exists>m. pr = [Print m])) \<and>
           (\<forall>url. respond env (trace w @ WriteFile (name f) (content f) # up)
                    (GeneratePresignedUrl ''get_object'' b (folder @ ''/'' @ name f) 3600) = Inr url
                  \<longrightarrow> pr = []))"
    "\<forall>e. fst (process_file env f b folder links w) = Inl e \<longrightarrow>
         (\<exists>c. S3 c (Inl e) \<in> set (up @ ps))"
proof -
  let ?n = "name f"
  let ?key = "folder @ ''/'' @ ?n"
  let ?w1 = "write_file ?n (content f) w"
  let ?gc = "GeneratePresignedUrl ''get_object'' b ?key 3600"
  obtain ru w2 where mu: "multipart_upload env ?n b folder ?n ?w1 = (ru, w2)"
    by (cases "multipart_upload env ?n b folder ?n ?w1")
  obtain rest where rest:
    "trace (snd (multipart_upload env ?n b folder ?n ?w1)) =
       trace ?w1 @
       S3 (CreateMultipartUpload b ?key (content_type ?n))
          (respond env (trace ?w1) (CreateMultipartUpload b ?key (content_type ?n))) # rest"
    "fs (snd (multipart_upload env ?n b folder ?n ?w1)) = fs ?w1"
    by (rule multipart_upload_events)
  let ?up = "S3 (CreateMultipartUpload b ?key (content_type ?n))
          (respond env (trace ?w1) (CreateMultipartUpload b ?key (content_type ?n))) # rest"
  from rest mu have t2: "trace w2 = trace w @ WriteFile ?n (content f) # ?up"
    and f2: "fs w2 = (fs w)(?n \<mapsto> content f)"
    by simp_all
  from rest(1) have nup: "new_events ?w1 (snd (multipart_upload env ?n b folder ?n ?w1)) = ?up"
    by (rule new_events_append)
  show thesis
  proof (cases ru)
    case (Inl e)
    with mu have pf: "process_file env f b folder links w = (Inl e, w2)"
      by (simp add: process_file_def Let_def)
    from multipart_upload_raises [of env ?n b folder ?n ?w1 e] mu Inl nup
    have "\<exists>c. S3 c (Inl e) \<in> set (?up @ [])"
      by simp
    with pf have "\<forall>e'. fst (process_file env f b folder links w) = Inl e' \<longrightarrow>
         (\<exists>c. S3 c (Inl e') \<in> set (?up @ []))"
      by simp
    with pf mu Inl t2 f2 show thesis
      by (intro that [of ?up "[]" "[]"]) simp_all
  next
    case (Inr op)
    show thesis
    proof (cases op)
      case None
      have "os_remove ?n w2 = (Inr (), emit (RemoveFile ?n) (w2\<lparr>fs := (fs w2)(?n := None)\<rparr>))"
        using f2 by (intro os_remove_present [of _ _ "content f"]) simp
      with mu Inr None
      have "process_file env f b folder links w =
              (Inr links, emit (RemoveFile ?n) (w2\<lparr>fs := (fs w2)(?n := None)\<rparr>))"
        by (simp add: process_file_def Let_def)
      with mu Inr None t2 f2 show thesis
        by (intro that [of ?up "[]" "[RemoveFile ?n]"]) simp_all
    next
      case (Some p)
      with mu Inr have p: "p = ?key"
        using multipart_upload_result [of env ?n b folder ?n ?w1 p] by simp
      then have tp: "truthy (Some p)" by simp
      obtain rg w3 where gp: "generate_presigned_url env b ?key 3600 w2 = (rg, w3)"
        by (cases "generate_presigned_url env b ?key 3600 w2")
      obtain pr where pr:
        "trace (snd (generate_presigned_url env b ?key 3600 w2)) =
           trace w2 @ S3 ?gc (respond env (trace w2) ?gc) # pr"
        "pr = [] \<or> (\<exists>m. pr = [Print m])"
        "fs (snd (generate_presigned_url env b ?key 3600 w2)) = fs w2"
        "fst (generate_presigned_url env b ?key 3600 w2) =
           (case respond env (trace w2) ?gc of
              Inr url \<Rightarrow> Inr (Some url)
            | Inl (ClientError m) \<Rightarrow> Inr None
            | Inl e \<Rightarrow> Inl e)"
        "(\<exists>url. respond env (trace w2) ?gc = Inr url) \<longrightarrow> pr = []"
        by (rule generate_presigned_url_cases)
      let ?rr = "respond env (trace w @ WriteFile ?n (content f) # ?up) ?gc"
      let ?ps = "S3 ?gc ?rr # pr"
      from pr gp have t3: "trace w3 = trace w @ WriteFile ?n (content f) # ?up @ ?ps"
        and f3: "fs w3 = (fs w)(?n \<mapsto> content f)"
        using t2 f2 by simp_all
      from pr(2) have pe: "list_all (presign_event b ?key) ?ps"
        by (auto simp: presign_event_def)
      have shape: "?ps = [] \<or>
          (\<exists>pr'. ?ps = S3 ?gc ?rr # pr' \<and> (pr' = [] \<or> (\<exists>m. pr' = [Print m])) \<and>
                 (\<forall>url. ?rr = Inr url \<longrightarrow> pr' = []))"
        using pr(2,5) t2 by auto
      show thesis
      proof (cases rg)
        case (Inl e)
        with mu Inr Some p gp have pf: "process_file env f b folder links w = (Inl e, w3)"
          by (simp add: process_file_def Let_def)
        from pr(4) gp Inl t2 have "?rr = Inl e"
          by (cases ?rr) (auto split: exn.splits)
        then have "\<exists>c. S3 c (Inl e) \<in> set (?up @ ?ps)"
          by (intro exI [of _ ?gc]) simp
        with pf have "\<forall>e'. fst (process_file env f b folder links w) = Inl e' \<longrightarrow>
             (\<exists>c. S3 c (Inl e') \<in> set (?up @ ?ps))"
          by simp
        with pf shape mu Inr Some t2 t3 f3 pe show thesis
          by (intro that [of ?up ?ps "[]"]) simp_all
      next
        case rgr: (Inr pu)
        have "os_remove ?n w3 = (Inr (), emit (RemoveFile ?n) (w3\<lparr>fs := (fs w3)(?n := None)\<rparr>))"
          using f3 by (intro os_remove_present [of _ _ "content f"]) simp
        with mu Inr Some p gp rgr
        have pf: "process_file env f b folder links w =
                (Inr (if truthy pu then links @ [the pu] else links),
                 emit (RemoveFile ?n) (w3\<lparr>fs := (fs w3)(?n := None)\<rparr>))"
          by (simp add: process_file_def Let_def)
        with shape mu Inr Some t2 t3 f3 pe show thesis
          by (intro that [of ?up ?ps "[RemoveFile ?n]"]) simp_all
      qed
    qed
  qed
qed


section \<open>Exceptions during an upload\<close>

lemma loop_continues:
  assumes "fst (multipart_upload env (name f) b folder (name f)
                  (write_file (name f) (content f) w)) = Inr None"
  shows "upload_loop env (f # files) b folder links w =
           upload_loop env files b folder links
             (snd (os_remove (name f)
                (snd (multipart_upload env (name f) b folder (name f)
                        (write_file (name f) (content f) w)))))"
    and "fst (os_remove (name f)
                (snd (multipart_upload env (name f) b folder (name f)
                        (write_file (name f) (content f) w)))) = Inr ()"
proof -
  let ?w0 = "write_file (name f) (content f) w"
  obtain ru w2 where mu: "multipart_upload env (name f) b folder (name f) ?w0 = (ru, w2)"
    by (cases "multipart_upload env (name f) b folder (name f) ?w0")
  with assms have ru: "ru = Inr None" by simp
  obtain rest where "fs (snd (multipart_upload env (name f) b folder (name f) ?w0)) = fs ?w0"
    by (rule multipart_upload_events)
  with mu have "fs w2 (name f) = Some (content f)" by simp
  then have rm: "os_remove (name f) w2 =
      (Inr (), emit (RemoveFile (name f)) (w2\<lparr>fs := (fs w2)(name f := None)\<rparr>))"
    by (rule os_remove_present)
  with mu ru have "process_file env f b folder links w =
      (Inr links, emit (RemoveFile (name f)) (w2\<lparr>fs := (fs w2)(name f := None)\<rparr>))"
    by (simp add: process_file_def Let_def)
  with mu rm show "upload_loop env (f # files) b folder links w =
           upload_loop env files b folder links
             (snd (os_remove (name f)
                (snd (multipart_upload env (name f) b folder (name f) ?w0))))"
    by simp
  from mu rm show "fst (os_remove (name f)
                (snd (multipart_upload env (name f) b folder (name f) ?w0))) = Inr ()"
    by simp
qed

text \<open>
  C1, as the code has it. For every file of the loop, when an exception \<open>e\<close> is raised in
  the try block of \<^verbatim>\<open>multipart_upload\<close>: the exception is caught and a line naming the
  file and \<open>e\<close> is printed; \<^verbatim>\<open>abort_multipart_upload\<close> is requested if and only if
  \<^verbatim>\<open>create_multipart_upload\<close> had returned; and, unless that abort request itself
  raises, \<^verbatim>\<open>multipart_upload\<close> returns \<^verbatim>\<open>None\<close>, the local copy is removed and the loop
  goes on with the remaining files and the links it had.
\<close>

theorem multipart_upload_exception:
  assumes "multipart_upload_try env (name f) b folder (name f)
             (write_file (name f) (content f) w) = (Inl e, uid, w1)"
  shows "let w0 = write_file (name f) (content f) w;
             res = multipart_upload env (name f) b folder (name f) w0;
             key = folder @ ''/'' @ name f;
             new = new_events w0 (snd res)
         in Print (''Error uploading '' @ name f @ '': '' @ str_exn e) \<in> set new \<and>
            ((\<exists>u ra. S3 (AbortMultipartUpload b key u) ra \<in> set new) =
             (\<exists>u. S3 (CreateMultipartUpload b key (content_type (name f))) (Inr u) \<in> set new)) \<and>
            ((\<forall>u e'. S3 (AbortMultipartUpload b key u) (Inl e') \<notin> set new) \<longrightarrow>
               fst res = Inr None \<and>
               fst (os_remove (name f) (snd res)) = Inr () \<and>
               (\<forall>files links.
                  upload_loop env (f # files) b folder links w =
                  upload_loop env files b folder links (snd (os_remove (name f) (snd res)))))"
proof -
  let ?w0 = "write_file (name f) (content f) w"
  let ?res = "multipart_upload env (name f) b folder (name f) ?w0"
  let ?key = "folder @ ''/'' @ name f"
  let ?cr = "CreateMultipartUpload b ?key (content_type (name f))"
  let ?msg = "Print (''Error uploading '' @ name f @ '': '' @ str_exn e)"
  let ?ab = "\<lambda>u. AbortMultipartUpload b ?key u"
  let ?ra = "\<lambda>u. respond env (trace w1 @ [?msg]) (?ab u)"
  note hd = multipart_upload_handler [OF assms]
  have cont: "fst (os_remove (name f) (snd ?res)) = Inr () \<and>
      (\<forall>files links.
          upload_loop env (f # files) b folder links w =
          upload_loop env files b folder links (snd (os_remove (name f) (snd ?res))))"
    if "fst ?res = Inr None"
    using loop_continues [OF that] by blast
  let ?new = "new_events ?w0 (snd ?res)"
  have third: "fst ?res = Inr None"
    if "S3 (?ab u) (?ra u) \<in> set ?new" "uid = Some u"
      "\<forall>u e'. S3 (?ab u) (Inl e') \<notin> set ?new" for u
  proof -
    from that(1,3) obtain x where "?ra u = Inr x"
      by (cases "?ra u") auto
    with hd(3) that(2) show ?thesis
      by simp
  qed
  have goal: "?msg \<in> set ?new \<and>
      ((\<exists>u ra. S3 (?ab u) ra \<in> set ?new) = (\<exists>u. S3 ?cr (Inr u) \<in> set ?new)) \<and>
      ((\<forall>u e'. S3 (?ab u) (Inl e') \<notin> set ?new) \<longrightarrow> fst ?res = Inr None)"
    using assms
  proof (cases rule: multipart_upload_try_cases)
    case (create_failed e0)
    with hd(2) have "?new = [S3 ?cr (Inl e0), ?msg]"
      by (intro new_events_append) simp
    moreover from hd(3) create_failed have "fst ?res = Inr None"
      by simp
    ultimately show ?thesis
      by simp
  next
    case (no_file u)
    from hd(2) no_file(2,5) have new: "?new = [S3 ?cr (Inr u), ?msg, S3 (?ab u) (?ra u)]"
      by (intro new_events_append) simp
    then have "S3 (?ab u) (?ra u) \<in> set ?new"
      by simp
    note third [OF this no_file(2)]
    moreover have "?msg \<in> set ?new"
      "(\<exists>u ra. S3 (?ab u) ra \<in> set ?new) = (\<exists>u. S3 ?cr (Inr u) \<in> set ?new)"
      unfolding new by auto
    ultimately show ?thesis
      by blast
  next
    case (part_failed u dat evs e0)
    from hd(2) part_failed(2,5)
    have new: "?new = S3 ?cr (Inr u) # evs @ [?msg, S3 (?ab u) (?ra u)]"
      by (intro new_events_append) simp
    then have "S3 (?ab u) (?ra u) \<in> set ?new"
      by simp
    note third [OF this part_failed(2)]
    moreover have "?msg \<in> set ?new"
      "(\<exists>u ra. S3 (?ab u) ra \<in> set ?new) = (\<exists>u. S3 ?cr (Inr u) \<in> set ?new)"
      unfolding new by auto
    ultimately show ?thesis
      by blast
  next
    case (completed u dat evs ps rc)
    from hd(2) completed(2,5)
    have new: "?new =
        S3 ?cr (Inr u) # evs @
        [S3 (CompleteMultipartUpload b ?key ps u) rc, ?msg, S3 (?ab u) (?ra u)]"
      by (intro new_events_append) simp
    then have "S3 (?ab u) (?ra u) \<in> set ?new"
      by simp
    note third [OF this completed(2)]
    moreover have "?msg \<in> set ?new"
      "(\<exists>u ra. S3 (?ab u) ra \<in> set ?new) = (\<exists>u. S3 ?cr (Inr u) \<in> set ?new)"
      unfolding new by auto
    ultimately show ?thesis
      by blast
  qed
  with cont show ?thesis
    unfolding Let_def by blast
qed


lemma part_fails_events:
  "new_events (write_file ''a.png'' ''abc'' w_empty)
     (snd (multipart_upload env_part_fails ''a.png'' ''bkt'' ''uploads/6f1c'' ''a.png''
             (write_file ''a.png'' ''abc'' w_empty))) =
     [S3 (CreateMultipartUpload ''bkt'' ''uploads/6f1c/a.png'' ''image/png'') (Inr ''upload-1''),
      S3 (UploadPart ''bkt'' ''uploads/6f1c/a.png'' 1 ''upload-1'' ''abc'')
         (Inl (ClientError ''SlowDown'')),
      Print ''Error uploading a.png: SlowDown'',
      S3 (AbortMultipartUpload ''bkt'' ''uploads/6f1c/a.png'' ''upload-1'') (Inr [])]"
  by (simp add: run_defs w_empty_def env_part_fails_def)

theorem multipart_upload_exception_witness:
  "fst (multipart_upload_try env_part_fails ''a.png'' ''bkt'' ''uploads/6f1c'' ''a.png''
          (write_file ''a.png'' ''abc'' w_empty)) = Inl (ClientError ''SlowDown'') \<and>
   Print ''Error uploading a.png: SlowDown''
     \<in> set (new_events (write_file ''a.png'' ''abc'' w_empty)
           (snd (multipart_upload env_part_fails ''a.png'' ''bkt'' ''uploads/6f1c'' ''a.png''
                   (write_file ''a.png'' ''abc'' w_empty)))) \<and>
   fst (multipart_upload env_part_fails ''a.png'' ''bkt'' ''uploads/6f1c'' ''a.png''
          (write_file ''a.png'' ''abc'' w_empty)) = Inr None \<and>
   upload_loop env_part_fails [f_a, f_b] ''bkt'' ''uploads/6f1c'' [] w_empty =
     upload_loop env_part_fails [f_b] ''bkt'' ''uploads/6f1c'' []
       (snd (os_remove ''a.png''
          (snd (multipart_upload env_part_fails ''a.png'' ''bkt'' ''uploads/6f1c'' ''a.png''
                  (write_file ''a.png'' ''abc'' w_empty)))))"
proof -
  let ?X = "multipart_upload_try env_part_fails (name f_a) ''bkt'' ''uploads/6f1c'' (name f_a)
              (write_file (name f_a) (content f_a) w_empty)"
  have r: "fst ?X = Inl (ClientError ''SlowDown'')"
    by (simp add: run_defs w_empty_def env_part_fails_def f_a_def)
  then have h: "?X = (Inl (ClientError ''SlowDown''), fst (snd ?X), snd (snd ?X))"
    by (metis prod.collapse)
  from multipart_upload_exception [OF h] r show ?thesis
    by (simp add: Let_def f_a_def part_fails_events)
qed

text \<open>
  C1 as stated fails when the abort request raises too: the second exception leaves
  \<^verbatim>\<open>multipart_upload\<close> and then \<^verbatim>\<open>upload_multiple_images_to_s3\<close>, and the second file
  is never written.
\<close>

theorem abort_raises_counterexample:
  "fst (multipart_upload_try env_net_down ''a.png'' ''bkt'' ''uploads/6f1c'' ''a.png''
          (write_file ''a.png'' ''abc'' w_empty)) =
     Inl (OtherException ''EndpointConnectionError'') \<and>
   fst (multipart_upload env_net_down ''a.png'' ''bkt'' ''uploads/6f1c'' ''a.png''
          (write_file ''a.png'' ''abc'' w_empty)) =
     Inl (OtherException ''EndpointConnectionError'') \<and>
   fst (upload_multiple_images_to_s3 env_net_down [f_a, f_b] ''bkt'' w_empty) =
     Inl (OtherException ''EndpointConnectionError'') \<and>
   trace (snd (upload_multiple_images_to_s3 env_net_down [f_a, f_b] ''bkt'' w_empty)) =
     [Uuid4 ''6f1c'',
      WriteFile ''a.png'' ''abc'',
      S3 (CreateMultipartUpload ''bkt'' ''uploads/6f1c/a.png'' ''image/png'') (Inr ''upload-1''),
      S3 (UploadPart ''bkt'' ''uploads/6f1c/a.png'' 1 ''upload-1'' ''abc'')
         (Inl (OtherException ''EndpointConnectionError'')),
      Print ''Error uploading a.png: EndpointConnectionError'',
      S3 (AbortMultipartUpload ''bkt'' ''uploads/6f1c/a.png'' ''upload-1'')
         (Inl (OtherException ''EndpointConnectionError''))]"
  by (simp add: run_defs w_empty_def env_net_down_def f_a_def f_b_def)


lemma not_completed_parts:
  "\<forall>ev \<in> set evs. \<exists>i c r'. ev = S3 (UploadPart b k i u c) r' \<Longrightarrow>
     \<not> list_ex upload_completed evs"
  by (induction evs) auto

lemma not_completed_handler:
  "s3_calls h = [] \<or> (\<exists>u. s3_calls h = [AbortMultipartUpload b k u]) \<Longrightarrow>
     \<not> list_ex upload_completed h"
proof (induction h)
  case Nil
  then show ?case by simp
next
  case (Cons ev h)
  show ?case
  proof (cases ev)
    case (S3 c r)
    with Cons.prems have "s3_calls h = []" "\<exists>u. c = AbortMultipartUpload b k u"
      by auto
    with Cons.IH S3 show ?thesis by auto
  qed (use Cons in simp_all)
qed

text \<open>\<^verbatim>\<open>multipart_upload\<close> returns an object path exactly when its complete request returned.\<close>

lemma multipart_upload_returns_path:
  "(\<exists>p. fst (multipart_upload env fp b folder obj w) = Inr (Some p)) =
     list_ex upload_completed (new_events w (snd (multipart_upload env fp b folder obj w)))"
proof -
  let ?key = "folder @ ''/'' @ obj"
  let ?cr = "CreateMultipartUpload b ?key (content_type obj)"
  let ?res = "multipart_upload env fp b folder obj w"
  obtain r uid w1 where run: "multipart_upload_try env fp b folder obj w = (r, uid, w1)"
    by (cases "multipart_upload_try env fp b folder obj w")
  obtain h where h: "trace (snd ?res) = trace w1 @ h"
    "s3_calls h = [] \<or> (\<exists>u. s3_calls h = [AbortMultipartUpload b ?key u])"
    by (rule list_all_upload_event_handler [OF run])
  note nh = not_completed_handler [OF h(2)]
  note hd = multipart_upload_handler(3) [OF run]
  have fail: "\<not> (\<exists>p. fst ?res = Inr (Some p))" if "r = Inl e" for e
    using hd that by (cases uid) (auto split: sum.splits)
  from run show ?thesis
  proof (cases rule: multipart_upload_try_cases)
    case (create_failed e)
    from h(1) create_failed(4) have "new_events w (snd ?res) = S3 ?cr (Inl e) # h"
      by (intro new_events_append) simp
    with nh fail [OF create_failed(1)] show ?thesis by simp
  next
    case (no_file u)
    from h(1) no_file(5) have "new_events w (snd ?res) = S3 ?cr (Inr u) # h"
      by (intro new_events_append) simp
    with nh fail [OF no_file(1)] show ?thesis by simp
  next
    case (part_failed u dat evs e)
    from h(1) part_failed(5) have "new_events w (snd ?res) = S3 ?cr (Inr u) # evs @ h"
      by (intro new_events_append) simp
    with nh fail [OF part_failed(1)] not_completed_parts [OF part_failed(6)] show ?thesis
      by simp
  next
    case (completed u dat evs ps rc)
    from h(1) completed(5)
    have new: "new_events w (snd ?res) =
        S3 ?cr (Inr u) # evs @ S3 (CompleteMultipartUpload b ?key ps u) rc # h"
      by (intro new_events_append) simp
    show ?thesis
    proof (cases rc)
      case (Inl e)
      with completed(1) have "r = Inl e" by simp
      from fail [OF this] new nh not_completed_parts [OF completed(6)] Inl show ?thesis
        by simp
    next
      case (Inr x)
      with completed(1) hd have "fst ?res = Inr (Some ?key)" by simp
      with new Inr show ?thesis by simp
    qed
  qed
qed

lemma create_preview_html_cases:
  fixes env image_links b folder w
  defines "html \<equiv> foldl (\<lambda>html link. html @ html_entry link) html_header image_links @ html_footer"
  defines "r \<equiv> respond env (trace w @ [WriteFile ''gallery.html'' html])
                 (UploadFile ''gallery.html'' b (folder @ ''/gallery.html'') ''text/html'' html)"
  shows "trace (snd (create_preview_html env image_links b folder w)) =
           trace w @
           WriteFile ''gallery.html'' html #
           S3 (UploadFile ''gallery.html'' b (folder @ ''/gallery.html'') ''text/html'' html) r #
           (case r of Inl e \<Rightarrow> [] | Inr x \<Rightarrow> [RemoveFile ''gallery.html''])"
    and "fst (create_preview_html env image_links b folder w) =
           (case r of Inl e \<Rightarrow> Inl e | Inr x \<Rightarrow> Inr (folder @ ''/gallery.html''))"
    and "fs (snd (create_preview_html env image_links b folder w)) =
           (case r of
              Inl e \<Rightarrow> (fs w)(''gallery.html'' \<mapsto> html)
            | Inr x \<Rightarrow> (fs w)(''gallery.html'' := None))"
  unfolding html_def r_def
  by (simp_all add: create_preview_html_def upload_file_def s3_invoke_eq os_remove_def Let_def
        split: sum.splits)

text \<open>The loop, when it ends without an exception: one segment of events for each file.\<close>

lemma upload_loop_segments:
  "upload_loop env files b folder links w = (Inr links', w') \<Longrightarrow>
     \<exists>segs. trace w' = trace w @ concat segs \<and>
       list_all2 (file_segment b folder) files segs \<and>
       fs w' = fs w |` (- name ` set files)"
proof (induction files arbitrary: links w)
  case Nil
  then show ?case by simp
next
  case (Cons f files)
  let ?key = "folder @ ''/'' @ name f"
  let ?w0 = "write_file (name f) (content f) w"
  let ?mu = "multipart_upload env (name f) b folder (name f) ?w0"
  obtain r1 w1 where pf: "process_file env f b folder links w = (r1, w1)"
    by (cases "process_file env f b folder links w")
  with Cons.prems obtain l1 where r1: "r1 = Inr l1"
    by (cases r1) simp_all
  with Cons.prems pf have rec: "upload_loop env files b folder l1 w1 = (Inr links', w')"
    by simp
  from Cons.IH [OF rec] obtain segs where segs:
    "trace w' = trace w1 @ concat segs" "list_all2 (file_segment b folder) files segs"
    "fs w' = fs w1 |` (- name ` set files)"
    by blast
  obtain up ps rm where tr:
    "trace (snd ?mu) = trace w @ WriteFile (name f) (content f) # up"
    "trace (snd (process_file env f b folder links w)) =
       trace w @ WriteFile (name f) (content f) # up @ ps @ rm"
    "list_all (presign_event b ?key) ps"
    "(ps \<noteq> []) = (\<exists>p. fst ?mu = Inr (Some p))"
    "(\<exists>ls. fst (process_file env f b folder links w) = Inr ls) \<and>
       rm = [RemoveFile (name f)] \<and>
       fs (snd (process_file env f b folder links w)) = (fs w)(name f := None)
     \<or>
     (\<exists>e. fst (process_file env f b folder links w) = Inl e) \<and>
       rm = [] \<and>
       fs (snd (process_file env f b folder links w)) = (fs w)(name f \<mapsto> content f)"
    by (rule process_file_trace)
  from tr(5) pf r1 have rm: "rm = [RemoveFile (name f)]" and f1: "fs w1 = (fs w)(name f := None)"
    by simp_all
  obtain rest where rest:
    "trace (snd ?mu) =
       trace ?w0 @
       S3 (CreateMultipartUpload b ?key (content_type (name f)))
          (respond env (trace ?w0) (CreateMultipartUpload b ?key (content_type (name f)))) # rest"
    "list_all (upload_event ?key) rest"
    by (rule multipart_upload_events)
  let ?r = "respond env (trace ?w0) (CreateMultipartUpload b ?key (content_type (name f)))"
  from rest(1) tr(1)
  have up: "up = S3 (CreateMultipartUpload b ?key (content_type (name f))) ?r # rest"
    by simp
  from rest(1) have "new_events ?w0 (snd ?mu) =
      S3 (CreateMultipartUpload b ?key (content_type (name f))) ?r # rest"
    by (rule new_events_append)
  with multipart_upload_returns_path [of env "name f" b folder "name f" ?w0] tr(4)
  have cmp: "(ps \<noteq> []) = list_ex upload_completed rest"
    by simp
  let ?seg = "WriteFile (name f) (content f) #
      S3 (CreateMultipartUpload b ?key (content_type (name f))) ?r #
      rest @ ps @ [RemoveFile (name f)]"
  from tr(2) pf up rm have t1: "trace w1 = trace w @ ?seg"
    by simp
  have seg: "file_segment b folder f ?seg"
    using rest(2) tr(3) cmp by blast
  have "trace w' = trace w @ concat (?seg # segs)"
    using segs(1) t1 by simp
  moreover have "list_all2 (file_segment b folder) (f # files) (?seg # segs)"
    using seg segs(2) by simp
  moreover have "fs w' = fs w |` (- name ` set (f # files))"
    using segs(3) f1 by (auto simp: restrict_map_def fun_eq_iff)
  ultimately show ?case
    by blast
qed


section \<open>The whole upload: order of the steps and the local files\<close>

text \<open>
  What a call of \<^verbatim>\<open>upload_multiple_images_to_s3\<close> that returns has done: the session
  id, the segments of the files, then the gallery page.
\<close>

lemma upload_multiple_returns:
  assumes "upload_multiple_images_to_s3 env files b w = (Inr url, w')"
  obtains segs links r1 r2 pr where
    "trace w' =
       trace w @
       Uuid4 (uuid4 env (trace w)) # concat segs @
       [WriteFile ''gallery.html''
          (foldl (\<lambda>html link. html @ html_entry link) html_header links @ html_footer),
        S3 (UploadFile ''gallery.html'' b (''uploads/'' @ uuid4 env (trace w) @ ''/gallery.html'')
              ''text/html''
              (foldl (\<lambda>html link. html @ html_entry link) html_header links @ html_footer))
           (Inr r1),
        RemoveFile ''gallery.html'',
        S3 (GeneratePresignedUrl ''get_object'' b
              (''uploads/'' @ uuid4 env (trace w) @ ''/gallery.html'') 3600) r2] @ pr"
    "list_all2 (file_segment b (''uploads/'' @ uuid4 env (trace w))) files segs"
    "pr = [] \<or> (\<exists>m. pr = [Print m])"
    "fs w' = fs w |` (- insert ''gallery.html'' (name ` set files))"
proof -
  let ?sid = "uuid4 env (trace w)"
  let ?folder = "''uploads/'' @ ?sid"
  let ?w0 = "emit (Uuid4 ?sid) w"
  obtain rl w1 where lp: "upload_loop env files b ?folder [] ?w0 = (rl, w1)"
    by (cases "upload_loop env files b ?folder [] ?w0")
  with assms obtain links where rl: "rl = Inr links"
    by (cases rl) (simp_all add: upload_multiple_images_to_s3_def Let_def)
  let ?html = "foldl (\<lambda>html link. html @ html_entry link) html_header links @ html_footer"
  let ?r = "respond env (trace w1 @ [WriteFile ''gallery.html'' ?html])
              (UploadFile ''gallery.html'' b (?folder @ ''/gallery.html'') ''text/html'' ?html)"
  obtain rc w2 where cp: "create_preview_html env links b ?folder w1 = (rc, w2)"
    by (cases "create_preview_html env links b ?folder w1")
  note cph = create_preview_html_cases [of env links b ?folder w1, unfolded cp fst_conv snd_conv]
  from assms lp rl cp obtain path where rc: "rc = Inr path"
    by (cases rc) (simp_all add: upload_multiple_images_to_s3_def Let_def)
  with cph(2) obtain r1 where r1: "?r = Inr r1"
    by (cases ?r) simp_all
  with cph(2) rc have path: "path = ?folder @ ''/gallery.html''"
    by simp
  from assms lp rl cp rc path
  have gp: "generate_presigned_url env b (?folder @ ''/gallery.html'') 3600 w2 = (Inr url, w')"
    by (simp add: upload_multiple_images_to_s3_def Let_def)
  obtain pr where pr:
    "trace (snd (generate_presigned_url env b (?folder @ ''/gallery.html'') 3600 w2)) =
       trace w2 @
       S3 (GeneratePresignedUrl ''get_object'' b (?folder @ ''/gallery.html'') 3600)
          (respond env (trace w2)
             (GeneratePresignedUrl ''get_object'' b (?folder @ ''/gallery.html'') 3600)) # pr"
    "pr = [] \<or> (\<exists>m. pr = [Print m])"
    "fs (snd (generate_presigned_url env b (?folder @ ''/gallery.html'') 3600 w2)) = fs w2"
    by (rule generate_presigned_url_cases)
  from upload_loop_segments [OF lp [unfolded rl]] obtain segs where segs:
    "trace w1 = trace ?w0 @ concat segs"
    "list_all2 (file_segment b ?folder) files segs"
    "fs w1 = fs ?w0 |` (- name ` set files)"
    by blast
  have t2: "trace w2 = trace w @ Uuid4 ?sid # concat segs @
      [WriteFile ''gallery.html'' ?html,
       S3 (UploadFile ''gallery.html'' b (?folder @ ''/gallery.html'') ''text/html'' ?html) (Inr r1),
       RemoveFile ''gallery.html'']"
    using cph(1) r1 segs(1) by simp
  have f2: "fs w2 = fs w |` (- insert ''gallery.html'' (name ` set files))"
    using cph(3) r1 segs(3) by (auto simp: restrict_map_def fun_eq_iff)
  from pr(1) gp t2 have "trace w' =
       trace w @
       Uuid4 ?sid # concat segs @
       [WriteFile ''gallery.html'' ?html,
        S3 (UploadFile ''gallery.html'' b (?folder @ ''/gallery.html'') ''text/html'' ?html) (Inr r1),
        RemoveFile ''gallery.html'',
        S3 (GeneratePresignedUrl ''get_object'' b (?folder @ ''/gallery.html'') 3600)
           (respond env (trace w2)
             (GeneratePresignedUrl ''get_object'' b (?folder @ ''/gallery.html'') 3600))] @ pr"
    by simp
  moreover from pr(3) gp f2
  have "fs w' = fs w |` (- insert ''gallery.html'' (name ` set files))"
    by simp
  ultimately show thesis
    using segs(2) pr(2) by (intro that [of segs links r1 _ pr]) simp_all
qed

text \<open>
  C5, as the code has it. When \<^verbatim>\<open>upload_multiple_images_to_s3\<close> returns, its events are
  in this order: the session id is drawn; then, for each file in input order, the file's
  bytes are written to the local path, the copy is multipart-uploaded, a pre-signed URL
  is requested for it if the upload was completed (and only then), and the local copy is
  removed; only after all files the gallery page is written, uploaded and removed, and a
  pre-signed URL is requested for it.
\<close>

theorem upload_order:
  assumes "upload_multiple_images_to_s3 env files b w = (Inr url, w')"
  shows "\<exists>segs html r1 r2 pr.
     new_events w w' =
       Uuid4 (uuid4 env (trace w)) # concat segs @
       [WriteFile ''gallery.html'' html,
        S3 (UploadFile ''gallery.html'' b (''uploads/'' @ uuid4 env (trace w) @ ''/gallery.html'')
              ''text/html'' html) (Inr r1),
        RemoveFile ''gallery.html'',
        S3 (GeneratePresignedUrl ''get_object'' b
              (''uploads/'' @ uuid4 env (trace w) @ ''/gallery.html'') 3600) r2] @ pr \<and>
     list_all2 (file_segment b (''uploads/'' @ uuid4 env (trace w))) files segs \<and>
     (pr = [] \<or> (\<exists>m. pr = [Print m]))"
proof -
  from assms obtain segs links r1 r2 pr where *:
    "trace w' =
       trace w @
       Uuid4 (uuid4 env (trace w)) # concat segs @
       [WriteFile ''gallery.html''
          (foldl (\<lambda>html link. html @ html_entry link) html_header links @ html_footer),
        S3 (UploadFile ''gallery.html'' b (''uploads/'' @ uuid4 env (trace w) @ ''/gallery.html'')
              ''text/html''
              (foldl (\<lambda>html link. html @ html_entry link) html_header links @ html_footer))
           (Inr r1),
        RemoveFile ''gallery.html'',
        S3 (GeneratePresignedUrl ''get_object'' b
              (''uploads/'' @ uuid4 env (trace w) @ ''/gallery.html'') 3600) r2] @ pr"
    "list_all2 (file_segment b (''uploads/'' @ uuid4 env (trace w))) files segs"
    "pr = [] \<or> (\<exists>m. pr = [Print m])"
    by (rule upload_multiple_returns)
  from *(1) have "new_events w w' =
       Uuid4 (uuid4 env (trace w)) # concat segs @
       [WriteFile ''gallery.html''
          (foldl (\<lambda>html link. html @ html_entry link) html_header links @ html_footer),
        S3 (UploadFile ''gallery.html'' b (''uploads/'' @ uuid4 env (trace w) @ ''/gallery.html'')
              ''text/html''
              (foldl (\<lambda>html link. html @ html_entry link) html_header links @ html_footer))
           (Inr r1),
        RemoveFile ''gallery.html'',
        S3 (GeneratePresignedUrl ''get_object'' b
              (''uploads/'' @ uuid4 env (trace w) @ ''/gallery.html'') 3600) r2] @ pr"
    by (rule new_events_append)
  with *(2,3) show ?thesis
    by blast
qed

text \<open>
  C6, as the code has it. When \<^verbatim>\<open>upload_multiple_images_to_s3\<close> returns, no local file it
  wrote is left: the path of every submitted file and \<^verbatim>\<open>gallery.html\<close> are absent from
  the local file system, whether or not the upload of the file succeeded, and every
  other local file is as it was.
\<close>

theorem no_local_file_left:
  assumes "upload_multiple_images_to_s3 env files b w = (Inr url, w')"
  shows "fs w' = fs w |` (- insert ''gallery.html'' (name ` set files))"
  using assms by (rule upload_multiple_returns)


lemma env_ok_returns:
  "fst (upload_multiple_images_to_s3 env_ok [f_a, f_b] ''bkt'' w_abc) =
     Inr (Some ''https://bkt/uploads/6f1c/gallery.html?sig'')"
  by (simp add: run_defs w_abc_def env_ok_def f_a_def f_b_def)

lemma env_part_fails_returns:
  "fst (upload_multiple_images_to_s3 env_part_fails [f_a] ''bkt'' w_empty) =
     Inr (Some ''https://bkt/uploads/6f1c/gallery.html?sig'')"
  by (simp add: run_defs w_empty_def env_part_fails_def f_a_def)

theorem upload_order_witness:
  "fst (upload_multiple_images_to_s3 env_ok [f_a, f_b] ''bkt'' w_abc) =
     Inr (Some ''https://bkt/uploads/6f1c/gallery.html?sig'') \<and>
   (\<exists>segs html r1 r2 pr.
     new_events w_abc (snd (upload_multiple_images_to_s3 env_ok [f_a, f_b] ''bkt'' w_abc)) =
       Uuid4 (uuid4 env_ok (trace w_abc)) # concat segs @
       [WriteFile ''gallery.html'' html,
        S3 (UploadFile ''gallery.html'' ''bkt''
              (''uploads/'' @ uuid4 env_ok (trace w_abc) @ ''/gallery.html'')
              ''text/html'' html) (Inr r1),
        RemoveFile ''gallery.html'',
        S3 (GeneratePresignedUrl ''get_object'' ''bkt''
              (''uploads/'' @ uuid4 env_ok (trace w_abc) @ ''/gallery.html'') 3600) r2] @ pr \<and>
     list_all2 (file_segment ''bkt'' (''uploads/'' @ uuid4 env_ok (trace w_abc))) [f_a, f_b] segs \<and>
     (pr = [] \<or> (\<exists>m. pr = [Print m])))"
proof -
  let ?X = "upload_multiple_images_to_s3 env_ok [f_a, f_b] ''bkt'' w_abc"
  have h: "?X = (Inr (Some ''https://bkt/uploads/6f1c/gallery.html?sig''), snd ?X)"
    using env_ok_returns by (metis prod.collapse)
  show ?thesis
    by (intro conjI) (rule env_ok_returns, rule upload_order [OF h])
qed

text \<open>
  C5 as stated fails for a file whose upload fails: the call returns, and between the
  writing and the removal of the file no pre-signed URL is requested for it.
\<close>

theorem upload_order_counterexample:
  "fst (upload_multiple_images_to_s3 env_part_fails [f_a] ''bkt'' w_empty) =
     Inr (Some ''https://bkt/uploads/6f1c/gallery.html?sig'') \<and>
   trace (snd (upload_multiple_images_to_s3 env_part_fails [f_a] ''bkt'' w_empty)) =
     [Uuid4 ''6f1c'',
      WriteFile ''a.png'' ''abc'',
      S3 (CreateMultipartUpload ''bkt'' ''uploads/6f1c/a.png'' ''image/png'') (Inr ''upload-1''),
      S3 (UploadPart ''bkt'' ''uploads/6f1c/a.png'' 1 ''upload-1'' ''abc'')
         (Inl (ClientError ''SlowDown'')),
      Print ''Error uploading a.png: SlowDown'',
      S3 (AbortMultipartUpload ''bkt'' ''uploads/6f1c/a.png'' ''upload-1'') (Inr []),
      RemoveFile ''a.png'',
      WriteFile ''gallery.html'' (html_header @ html_footer),
      S3 (UploadFile ''gallery.html'' ''bkt'' ''uploads/6f1c/gallery.html'' ''text/html''
            (html_header @ html_footer)) (Inr []),
      RemoveFile ''gallery.html'',
      S3 (GeneratePresignedUrl ''get_object'' ''bkt'' ''uploads/6f1c/gallery.html'' 3600)
         (Inr ''https://bkt/uploads/6f1c/gallery.html?sig'')]"
  by (simp add: run_defs w_empty_def env_part_fails_def f_a_def)

theorem no_local_file_left_witness:
  "fst (upload_multiple_images_to_s3 env_ok [f_a, f_b] ''bkt'' w_abc) =
     Inr (Some ''https://bkt/uploads/6f1c/gallery.html?sig'') \<and>
   fs (snd (upload_multiple_images_to_s3 env_ok [f_a, f_b] ''bkt'' w_abc)) ''a.png'' = None \<and>
   fs (snd (upload_multiple_images_to_s3 env_ok [f_a, f_b] ''bkt'' w_abc)) ''b.png'' = None \<and>
   fs (snd (upload_multiple_images_to_s3 env_ok [f_a, f_b] ''bkt'' w_abc)) ''gallery.html'' = None \<and>
   fs (snd (upload_multiple_images_to_s3 env_ok [f_a, f_b] ''bkt'' w_abc)) ''a.JPG'' = Some ''abc''"
proof -
  let ?X = "upload_multiple_images_to_s3 env_ok [f_a, f_b] ''bkt'' w_abc"
  have h: "?X = (Inr (Some ''https://bkt/uploads/6f1c/gallery.html?sig''), snd ?X)"
    using env_ok_returns by (metis prod.collapse)
  from no_local_file_left [OF h] env_ok_returns show ?thesis
    by (simp add: restrict_map_def f_a_def f_b_def w_abc_def)
qed

text \<open>
  C6 as stated fails when an exception leaves the function: after a refused upload of
  the gallery page the local \<^verbatim>\<open>gallery.html\<close> is still there, and after a lost connection
  the local copy of the file in progress is still there.
\<close>

theorem local_file_left_counterexample:
  "fst (upload_multiple_images_to_s3 env_no_bucket [f_a] ''bkt'' w_empty) =
     Inl (ClientError ''NoSuchBucket'') \<and>
   fs (snd (upload_multiple_images_to_s3 env_no_bucket [f_a] ''bkt'' w_empty)) ''gallery.html'' =
     Some (html_header @ html_footer) \<and>
   fst (upload_multiple_images_to_s3 env_net_down [f_a, f_b] ''bkt'' w_empty) =
     Inl (OtherException ''EndpointConnectionError'') \<and>
   fs (snd (upload_multiple_images_to_s3 env_net_down [f_a, f_b] ''bkt'' w_empty)) ''a.png'' =
     Some ''abc''"
  by (simp add: run_defs w_empty_def env_no_bucket_def env_net_down_def f_a_def f_b_def)


section \<open>The keys of a session\<close>

lemma upload_event_session:
  "upload_event (folder @ ''/'' @ name f) ev \<Longrightarrow> session_event folder (f # files) ev"
  by (cases ev) (auto simp: upload_event_def session_event_def)

lemma presign_event_session:
  "presign_event b (folder @ ''/'' @ name f) ev \<Longrightarrow> session_event folder (f # files) ev"
  by (cases ev) (auto simp: presign_event_def session_event_def)

lemma session_event_Cons:
  "session_event folder files ev \<Longrightarrow> session_event folder (f # files) ev"
  by (cases ev) (auto simp: session_event_def)

lemma process_file_events:
  obtains evs where
    "trace (snd (process_file env f b folder links w)) = trace w @ evs"
    "list_all (session_event folder (f # files)) evs"
proof -
  let ?key = "folder @ ''/'' @ name f"
  let ?w0 = "write_file (name f) (content f) w"
  let ?mu = "multipart_upload env (name f) b folder (name f) ?w0"
  let ?cr = "CreateMultipartUpload b ?key (content_type (name f))"
  obtain up ps rm where tr:
    "trace (snd ?mu) = trace w @ WriteFile (name f) (content f) # up"
    "trace (snd (process_file env f b folder links w)) =
       trace w @ WriteFile (name f) (content f) # up @ ps @ rm"
    "list_all (presign_event b ?key) ps"
    "(ps \<noteq> []) = (\<exists>p. fst ?mu = Inr (Some p))"
    "(\<exists>ls. fst (process_file env f b folder links w) = Inr ls) \<and>
       rm = [RemoveFile (name f)] \<and>
       fs (snd (process_file env f b folder links w)) = (fs w)(name f := None)
     \<or>
     (\<exists>e. fst (process_file env f b folder links w) = Inl e) \<and>
       rm = [] \<and>
       fs (snd (process_file env f b folder links w)) = (fs w)(name f \<mapsto> content f)"
    by (rule process_file_trace)
  obtain rest where rest:
    "trace (snd ?mu) = trace ?w0 @ S3 ?cr (respond env (trace ?w0) ?cr) # rest"
    "list_all (upload_event ?key) rest"
    by (rule multipart_upload_events)
  from rest(1) tr(1) have up: "up = S3 ?cr (respond env (trace ?w0) ?cr) # rest"
    by simp
  have "session_event folder (f # files) (S3 ?cr (respond env (trace ?w0) ?cr))"
    by (simp add: session_event_def is_multipart_def)
  moreover from rest(2) have "list_all (session_event folder (f # files)) rest"
    unfolding list_all_iff by (blast intro: upload_event_session)
  ultimately have "list_all (session_event folder (f # files)) up"
    unfolding up by simp
  moreover from tr(3) have "list_all (session_event folder (f # files)) ps"
    unfolding list_all_iff by (blast intro: presign_event_session)
  moreover from tr(5) have "list_all (session_event folder (f # files)) rm"
    by (auto simp: session_event_def)
  moreover have "session_event folder (f # files) (WriteFile (name f) (content f))"
    by (simp add: session_event_def)
  ultimately have "list_all (session_event folder (f # files))
      (WriteFile (name f) (content f) # up @ ps @ rm)"
    by simp
  with tr(2) show thesis
    by (rule that)
qed

lemma upload_loop_events:
  "\<exists>evs. trace (snd (upload_loop env files b folder links w)) = trace w @ evs \<and>
     list_all (session_event folder files) evs"
proof (induction files arbitrary: links w)
  case Nil
  then show ?case by simp
next
  case (Cons f files)
  obtain r1 w1 where pf: "process_file env f b folder links w = (r1, w1)"
    by (cases "process_file env f b folder links w")
  obtain e1 where e1: "trace (snd (process_file env f b folder links w)) = trace w @ e1"
    "list_all (session_event folder (f # files)) e1"
    by (rule process_file_events)
  show ?case
  proof (cases r1)
    case (Inl e)
    with pf e1 show ?thesis by auto
  next
    case (Inr l1)
    from Cons.IH [of l1 w1] obtain evs where evs:
      "trace (snd (upload_loop env files b folder l1 w1)) = trace w1 @ evs"
      "list_all (session_event folder files) evs"
      by blast
    from evs(2) have "list_all (session_event folder (f # files)) evs"
      unfolding list_all_iff by (blast intro: session_event_Cons)
    with e1 evs(1) pf Inr
    have "trace (snd (upload_loop env (f # files) b folder links w)) = trace w @ (e1 @ evs)"
      "list_all (session_event folder (f # files)) (e1 @ evs)"
      by simp_all
    then show ?thesis by blast
  qed
qed

text \<open>Every way the whole upload can end: its events are the session id, then events
  of the loop, then events of the gallery page.\<close>

lemma upload_multiple_events:
  obtains evs gal where
    "trace (snd (upload_multiple_images_to_s3 env files b w)) =
       trace w @ Uuid4 (uuid4 env (trace w)) # evs @ gal"
    "list_all (session_event (''uploads/'' @ uuid4 env (trace w)) files) evs"
    "list_all (gallery_event (''uploads/'' @ uuid4 env (trace w))) gal"
proof -
  let ?sid = "uuid4 env (trace w)"
  let ?folder = "''uploads/'' @ ?sid"
  let ?w0 = "emit (Uuid4 ?sid) w"
  let ?gk = "?folder @ ''/gallery.html''"
  obtain rl w1 where lp: "upload_loop env files b ?folder [] ?w0 = (rl, w1)"
    by (cases "upload_loop env files b ?folder [] ?w0")
  from upload_loop_events [of env files b ?folder "[]" ?w0] lp obtain evs where evs:
    "trace w1 = trace w @ Uuid4 ?sid # evs" "list_all (session_event ?folder files) evs"
    by auto
  show thesis
  proof (cases rl)
    case (Inl e)
    with lp have "upload_multiple_images_to_s3 env files b w = (Inl e, w1)"
      by (simp add: upload_multiple_images_to_s3_def Let_def)
    with evs show thesis
      by (intro that [of evs "[]"]) simp_all
  next
    case (Inr links)
    let ?html = "foldl (\<lambda>html link. html @ html_entry link) html_header links @ html_footer"
    let ?uf = "UploadFile ''gallery.html'' b ?gk ''text/html'' ?html"
    let ?r = "respond env (trace w1 @ [WriteFile ''gallery.html'' ?html]) ?uf"
    obtain rc w2 where cp: "create_preview_html env links b ?folder w1 = (rc, w2)"
      by (cases "create_preview_html env links b ?folder w1")
    note cph = create_preview_html_cases [of env links b ?folder w1, unfolded cp fst_conv snd_conv]
    let ?g1 = "WriteFile ''gallery.html'' ?html # S3 ?uf ?r #
                 (case ?r of Inl e \<Rightarrow> [] | Inr x \<Rightarrow> [RemoveFile ''gallery.html''])"
    have g1: "list_all (gallery_event ?folder) ?g1"
      by (cases ?r) (simp_all add: gallery_event_def)
    from cph(1) evs(1) have t2: "trace w2 = trace w @ Uuid4 ?sid # evs @ ?g1"
      by simp
    show thesis
    proof (cases rc)
      case (Inl e)
      with lp Inr cp have "upload_multiple_images_to_s3 env files b w = (Inl e, w2)"
        by (simp add: upload_multiple_images_to_s3_def Let_def)
      with t2 evs(2) g1 show thesis
        by (intro that [of evs ?g1]) simp_all
    next
      case rcr: (Inr path)
      with cph(2) have path: "path = ?gk"
        by (cases ?r) simp_all
      with lp Inr cp rcr
      have um: "upload_multiple_images_to_s3 env files b w =
                  generate_presigned_url env b ?gk 3600 w2"
        by (simp add: upload_multiple_images_to_s3_def Let_def)
      obtain pr where pr:
        "trace (snd (generate_presigned_url env b ?gk 3600 w2)) =
           trace w2 @
           S3 (GeneratePresignedUrl ''get_object'' b ?gk 3600)
              (respond env (trace w2) (GeneratePresignedUrl ''get_object'' b ?gk 3600)) # pr"
        "pr = [] \<or> (\<exists>m. pr = [Print m])"
        by (rule generate_presigned_url_cases)
      let ?g2 = "S3 (GeneratePresignedUrl ''get_object'' b ?gk 3600)
              (respond env (trace w2) (GeneratePresignedUrl ''get_object'' b ?gk 3600)) # pr"
      from pr(2) have g2: "list_all (gallery_event ?folder) ?g2"
        by (auto simp: gallery_event_def)
      from pr(1) um t2
      have "trace (snd (upload_multiple_images_to_s3 env files b w)) =
              trace w @ Uuid4 ?sid # evs @ (?g1 @ ?g2)"
        by simp
      moreover from g1 g2 have "list_all (gallery_event ?folder) (?g1 @ ?g2)"
        by simp
      ultimately show thesis
        using evs(2) by (intro that [of evs "?g1 @ ?g2"])
    qed
  qed
qed

lemma s3_calls_mem: "c \<in> set (s3_calls evs) \<Longrightarrow> \<exists>r. S3 c r \<in> set evs"
proof (induction evs)
  case Nil
  then show ?case by simp
next
  case (Cons ev evs)
  then show ?case by (cases ev) auto
qed

text \<open>
  C4. In every upload session one session id is drawn, first of all, by the one call of
  \<^verbatim>\<open>uuid.uuid4\<close>; every multipart request of the session (create, part, complete, abort)
  carries a key \<^verbatim>\<open>uploads/<session-id>/<original-filename>\<close> of a submitted file; the
  gallery page is uploaded under \<^verbatim>\<open>uploads/<session-id>/gallery.html\<close>; and pre-signed
  URLs are requested for keys of the same folder only.
\<close>

theorem session_keys:
  "let sid = uuid4 env (trace w);
       folder = ''uploads/'' @ sid;
       new = new_events w (snd (upload_multiple_images_to_s3 env files b w))
   in (\<exists>rest. new = Uuid4 sid # rest \<and> (\<forall>s. Uuid4 s \<notin> set rest)) \<and>
      (\<forall>c \<in> set (s3_calls new).
         (is_multipart c \<longrightarrow> key_of c \<in> (\<lambda>f. folder @ ''/'' @ name f) ` set files) \<and>
         (is_upload_file c \<longrightarrow> key_of c = folder @ ''/gallery.html'') \<and>
         (is_presign c \<longrightarrow>
            key_of c \<in> insert (folder @ ''/gallery.html'')
                         ((\<lambda>f. folder @ ''/'' @ name f) ` set files)))"
proof -
  let ?sid = "uuid4 env (trace w)"
  let ?folder = "''uploads/'' @ ?sid"
  let ?new = "new_events w (snd (upload_multiple_images_to_s3 env files b w))"
  obtain evs gal where eg:
    "trace (snd (upload_multiple_images_to_s3 env files b w)) =
       trace w @ Uuid4 ?sid # evs @ gal"
    "list_all (session_event ?folder files) evs"
    "list_all (gallery_event ?folder) gal"
    by (rule upload_multiple_events)
  from eg(1) have new: "?new = Uuid4 ?sid # evs @ gal"
    by (rule new_events_append)
  have nu: "Uuid4 s \<notin> set (evs @ gal)" for s
    using eg(2,3) by (auto simp: list_all_iff session_event_def gallery_event_def)
  have keys: "(is_multipart c \<longrightarrow> key_of c \<in> (\<lambda>f. ?folder @ ''/'' @ name f) ` set files) \<and>
         (is_upload_file c \<longrightarrow> key_of c = ?folder @ ''/gallery.html'') \<and>
         (is_presign c \<longrightarrow>
            key_of c \<in> insert (?folder @ ''/gallery.html'')
                         ((\<lambda>f. ?folder @ ''/'' @ name f) ` set files))"
    if "c \<in> set (s3_calls ?new)" for c
  proof -
    from that new have "c \<in> set (s3_calls evs) \<or> c \<in> set (s3_calls gal)"
      by auto
    then show ?thesis
    proof
      assume "c \<in> set (s3_calls evs)"
      then obtain r where "S3 c r \<in> set evs"
        by (auto dest: s3_calls_mem)
      with eg(2) have "session_event ?folder files (S3 c r)"
        by (simp add: list_all_iff)
      then show ?thesis
        by (cases c) (auto simp: session_event_def is_multipart_def)
    next
      assume "c \<in> set (s3_calls gal)"
      then obtain r where "S3 c r \<in> set gal"
        by (auto dest: s3_calls_mem)
      with eg(3) have "gallery_event ?folder (S3 c r)"
        by (simp add: list_all_iff)
      then show ?thesis
        by (cases c) (auto simp: gallery_event_def is_multipart_def)
    qed
  qed
  from new nu have "\<exists>rest. ?new = Uuid4 ?sid # rest \<and> (\<forall>s. Uuid4 s \<notin> set rest)"
    by blast
  with keys show ?thesis
    unfolding Let_def by blast
qed


theorem session_keys_witness:
  "CompleteMultipartUpload ''bkt'' ''uploads/6f1c/b.png'' [(''etag-i'', 1)] ''upload-1''
     \<in> set (s3_calls (new_events w_abc
           (snd (upload_multiple_images_to_s3 env_ok [f_a, f_b] ''bkt'' w_abc)))) \<and>
   key_of (CompleteMultipartUpload ''bkt'' ''uploads/6f1c/b.png'' [(''etag-i'', 1)] ''upload-1'')
     \<in> (\<lambda>f. (''uploads/'' @ uuid4 env_ok (trace w_abc)) @ ''/'' @ name f) ` set [f_a, f_b] \<and>
   (\<exists>rest. new_events w_abc (snd (upload_multiple_images_to_s3 env_ok [f_a, f_b] ''bkt'' w_abc)) =
             Uuid4 (uuid4 env_ok (trace w_abc)) # rest \<and>
           (\<forall>s. Uuid4 s \<notin> set rest))"
proof -
  let ?new = "new_events w_abc (snd (upload_multiple_images_to_s3 env_ok [f_a, f_b] ''bkt'' w_abc))"
  let ?c = "CompleteMultipartUpload ''bkt'' ''uploads/6f1c/b.png'' [(''etag-i'', 1)] ''upload-1''"
  have mem: "?c \<in> set (s3_calls ?new)"
    by (simp add: run_defs w_abc_def env_ok_def f_a_def f_b_def)
  note sk = session_keys [where env = env_ok and w = w_abc and b = "''bkt''"
      and files = "[f_a, f_b]", unfolded Let_def]
  from sk mem have "is_multipart ?c \<longrightarrow>
      key_of ?c \<in> (\<lambda>f. (''uploads/'' @ uuid4 env_ok (trace w_abc)) @ ''/'' @ name f) ` set [f_a, f_b]"
    by blast
  then have "key_of ?c \<in>
      (\<lambda>f. (''uploads/'' @ uuid4 env_ok (trace w_abc)) @ ''/'' @ name f) ` set [f_a, f_b]"
    by (simp add: is_multipart_def)
  with mem sk show ?thesis
    by blast
qed

section \<open>The pre-signed URLs of a session\<close>

lemma presigned_urls_Nil [simp]: "presigned_urls [] = []"
  by (simp add: presigned_urls_def List.map_filter_def)

lemma presigned_urls_Cons:
  "presigned_urls (ev # evs) =
     (case presigned_of ev of None \<Rightarrow> presigned_urls evs | Some p \<Rightarrow> p # presigned_urls evs)"
  by (simp add: presigned_urls_def map_filter_simps split: option.split)

lemma presigned_urls_append [simp]:
  "presigned_urls (xs @ ys) = presigned_urls xs @ presigned_urls ys"
  by (simp add: presigned_urls_def List.map_filter_def)

lemma presigned_urls_upload:
  "list_all (upload_event k) evs \<Longrightarrow> presigned_urls evs = []"
proof (induction evs)
  case Nil
  then show ?case by simp
next
  case (Cons ev evs)
  show ?case
  proof (cases ev)
    case (S3 c r)
    with Cons show ?thesis
      by (cases c) (simp_all add: presigned_urls_Cons upload_event_def is_multipart_def)
  qed (use Cons in \<open>simp_all add: presigned_urls_Cons upload_event_def\<close>)
qed

text \<open>
  With the local file in place and no failed request among its events,
  \<^verbatim>\<open>multipart_upload\<close> returns the object path.
\<close>

lemma multipart_upload_ok:
  assumes "fs w fp = Some dat"
    and "\<forall>c e. S3 c (Inl e) \<notin> set (new_events w (snd (multipart_upload env fp b folder obj w)))"
  shows "fst (multipart_upload env fp b folder obj w) = Inr (Some (folder @ ''/'' @ obj))"
proof -
  let ?key = "folder @ ''/'' @ obj"
  let ?cr = "CreateMultipartUpload b ?key (content_type obj)"
  let ?res = "multipart_upload env fp b folder obj w"
  obtain r uid w1 where run: "multipart_upload_try env fp b folder obj w = (r, uid, w1)"
    by (cases "multipart_upload_try env fp b folder obj w")
  obtain h where h: "trace (snd ?res) = trace w1 @ h"
    by (rule list_all_upload_event_handler [OF run])
  have "list_ex upload_completed (new_events w (snd ?res))"
    using run
  proof (cases rule: multipart_upload_try_cases)
    case (create_failed e)
    from h create_failed(4) have "new_events w (snd ?res) = S3 ?cr (Inl e) # h"
      by (intro new_events_append) simp
    with assms(2) show ?thesis by auto
  next
    case (no_file u)
    with assms(1) show ?thesis by simp
  next
    case (part_failed u dat' evs e)
    from h part_failed(5) have "new_events w (snd ?res) = S3 ?cr (Inr u) # evs @ h"
      by (intro new_events_append) simp
    with assms(2) part_failed(9) show ?thesis by auto
  next
    case (completed u dat' evs ps rc)
    from h completed(5)
    have new: "new_events w (snd ?res) =
        S3 ?cr (Inr u) # evs @ S3 (CompleteMultipartUpload b ?key ps u) rc # h"
      by (intro new_events_append) simp
    with assms(2) obtain x where "rc = Inr x"
      by (cases rc) auto
    with new show ?thesis by simp
  qed
  then obtain p where "fst ?res = Inr (Some p)"
    using multipart_upload_returns_path [of env fp b folder obj w] by blast
  with multipart_upload_result [of env fp b folder obj w p] show ?thesis
    by simp
qed

lemma process_file_ok:
  assumes "\<forall>c e. S3 c (Inl e) \<notin> set (new_events w (snd (process_file env f b folder links w)))"
  shows "\<exists>ls url. fst (process_file env f b folder links w) = Inr ls \<and>
           presigned_urls (new_events w (snd (process_file env f b folder links w))) =
             [(folder @ ''/'' @ name f, url)]"
proof -
  let ?key = "folder @ ''/'' @ name f"
  let ?w0 = "write_file (name f) (content f) w"
  let ?mu = "multipart_upload env (name f) b folder (name f) ?w0"
  let ?pf = "process_file env f b folder links w"
  let ?gc = "GeneratePresignedUrl ''get_object'' b ?key 3600"
  obtain up ps rm where tr:
    "trace (snd ?mu) = trace w @ WriteFile (name f) (content f) # up"
    "trace (snd ?pf) = trace w @ WriteFile (name f) (content f) # up @ ps @ rm"
    "list_all (presign_event b ?key) ps"
    "(ps \<noteq> []) = (\<exists>p. fst ?mu = Inr (Some p))"
    "(\<exists>ls. fst ?pf = Inr ls) \<and> rm = [RemoveFile (name f)] \<and>
       fs (snd ?pf) = (fs w)(name f := None)
     \<or>
     (\<exists>e. fst ?pf = Inl e) \<and> rm = [] \<and>
       fs (snd ?pf) = (fs w)(name f \<mapsto> content f)"
    "ps = [] \<or>
     (\<exists>pr. ps = S3 ?gc (respond env (trace w @ WriteFile (name f) (content f) # up) ?gc) # pr \<and>
           (pr = [] \<or> (\<exists>m. pr = [Print m])) \<and>
           (\<forall>url. respond env (trace w @ WriteFile (name f) (content f) # up) ?gc = Inr url
                  \<longrightarrow> pr = []))"
    "\<forall>e. fst ?pf = Inl e \<longrightarrow> (\<exists>c. S3 c (Inl e) \<in> set (up @ ps))"
    by (rule process_file_trace)
  from tr(2) have new: "new_events w (snd ?pf) = WriteFile (name f) (content f) # up @ ps @ rm"
    by (rule new_events_append)
  from tr(1) have "trace (snd ?mu) = trace ?w0 @ up"
    by simp
  then have nup: "new_events ?w0 (snd ?mu) = up"
    by (rule new_events_append)
  from assms new have nf: "S3 c (Inl e) \<notin> set (up @ ps)" for c e
    by auto
  with tr(7) tr(5) obtain ls where ls: "fst ?pf = Inr ls" and rm: "rm = [RemoveFile (name f)]"
    by (cases "fst ?pf") auto
  from nf nup have "\<forall>c e. S3 c (Inl e) \<notin> set (new_events ?w0 (snd ?mu))"
    by simp
  with multipart_upload_ok [of ?w0 "name f" "content f" env b folder "name f"]
  have ok: "fst ?mu = Inr (Some ?key)"
    by simp
  with tr(4) have "ps \<noteq> []"
    by simp
  with tr(6) obtain pr where pr:
    "ps = S3 ?gc (respond env (trace w @ WriteFile (name f) (content f) # up) ?gc) # pr"
    "\<forall>url. respond env (trace w @ WriteFile (name f) (content f) # up) ?gc = Inr url \<longrightarrow> pr = []"
    by blast
  let ?rr = "respond env (trace w @ WriteFile (name f) (content f) # up) ?gc"
  from nf pr(1) obtain url where url: "?rr = Inr url"
    by (cases ?rr) auto
  with pr have ps: "ps = [S3 ?gc (Inr url)]"
    by simp
  obtain rest where rest:
    "trace (snd ?mu) =
       trace ?w0 @
       S3 (CreateMultipartUpload b ?key (content_type (name f)))
          (respond env (trace ?w0) (CreateMultipartUpload b ?key (content_type (name f)))) # rest"
    "list_all (upload_event ?key) rest"
    by (rule multipart_upload_events)
  from rest(1) tr(1)
  have up: "up = S3 (CreateMultipartUpload b ?key (content_type (name f)))
          (respond env (trace ?w0) (CreateMultipartUpload b ?key (content_type (name f)))) # rest"
    by simp
  have "presigned_urls up = []"
    unfolding up using presigned_urls_upload [OF rest(2)] by (simp add: presigned_urls_Cons)
  then have "presigned_urls (new_events w (snd ?pf)) = [(?key, url)]"
    unfolding new ps rm by (simp add: presigned_urls_Cons)
  with ls show ?thesis
    by blast
qed


lemma upload_loop_ok:
  assumes "\<forall>c e. S3 c (Inl e) \<notin>
             set (new_events w (snd (upload_loop env files b folder links w)))"
  shows "\<exists>ls. fst (upload_loop env files b folder links w) = Inr ls \<and>
           map fst (presigned_urls (new_events w (snd (upload_loop env files b folder links w)))) =
             map (\<lambda>f. folder @ ''/'' @ name f) files"
  using assms
proof (induction files arbitrary: links w)
  case Nil
  then show ?case by (simp add: new_events_def)
next
  case (Cons f files)
  let ?pf = "process_file env f b folder links w"
  let ?lp = "upload_loop env (f # files) b folder links w"
  obtain r1 w1 where pf: "?pf = (r1, w1)"
    by (cases ?pf)
  obtain e1 where e1: "trace (snd ?pf) = trace w @ e1"
    by (rule process_file_events)
  then have n1: "new_events w (snd ?pf) = e1"
    by (rule new_events_append)
  have ext: "\<exists>evs. trace (snd ?lp) = trace w @ e1 @ evs"
  proof (cases r1)
    case (Inl e)
    with pf e1 show ?thesis by simp
  next
    case (Inr l1)
    from upload_loop_events [of env files b folder l1 w1] pf Inr e1 show ?thesis
      by auto
  qed
  then obtain evs where evs: "trace (snd ?lp) = trace w @ e1 @ evs"
    by blast
  then have new: "new_events w (snd ?lp) = e1 @ evs"
    by (rule new_events_append)
  with Cons.prems n1 have "\<forall>c e. S3 c (Inl e) \<notin> set (new_events w (snd ?pf))"
    by auto
  from process_file_ok [OF this] pf n1 obtain l1 url where ok:
    "r1 = Inr l1" "presigned_urls e1 = [(folder @ ''/'' @ name f, url)]"
    by auto
  let ?rec = "upload_loop env files b folder l1 w1"
  from pf ok(1) have lp: "?lp = ?rec"
    by simp
  from evs lp pf e1 have "trace (snd ?rec) = trace w1 @ evs"
    by simp
  then have nr: "new_events w1 (snd ?rec) = evs"
    by (rule new_events_append)
  with Cons.prems new have "\<forall>c e. S3 c (Inl e) \<notin> set (new_events w1 (snd ?rec))"
    by auto
  from Cons.IH [OF this] nr obtain ls where
    "fst ?rec = Inr ls" "map fst (presigned_urls evs) = map (\<lambda>f. folder @ ''/'' @ name f) files"
    by auto
  with lp new ok(2) show ?case
    by simp
qed

text \<open>
  C3, as the code has it. For every submitted list of \<open>N\<close> files, if no request to the
  object store fails during the call, \<^verbatim>\<open>upload_multiple_images_to_s3\<close> returns the
  pre-signed URL of the gallery page, and \<open>N + 1\<close> pre-signed URLs have been produced:
  one for the object of each submitted file, in input order, and last the one of the
  gallery page.
\<close>

theorem presigned_urls_produced:
  assumes "\<forall>c e. S3 c (Inl e) \<notin>
             set (new_events w (snd (upload_multiple_images_to_s3 env files b w)))"
  shows "\<exists>url.
     fst (upload_multiple_images_to_s3 env files b w) = Inr (Some url) \<and>
     presigned_urls (new_events w (snd (upload_multiple_images_to_s3 env files b w))) \<noteq> [] \<and>
     last (presigned_urls (new_events w (snd (upload_multiple_images_to_s3 env files b w)))) =
       (''uploads/'' @ uuid4 env (trace w) @ ''/gallery.html'', url) \<and>
     map fst (butlast
       (presigned_urls (new_events w (snd (upload_multiple_images_to_s3 env files b w))))) =
       map (\<lambda>f. ''uploads/'' @ uuid4 env (trace w) @ ''/'' @ name f) files \<and>
     length (presigned_urls (new_events w (snd (upload_multiple_images_to_s3 env files b w)))) =
       length files + 1"
proof -
  let ?sid = "uuid4 env (trace w)"
  let ?folder = "''uploads/'' @ ?sid"
  let ?w0 = "emit (Uuid4 ?sid) w"
  let ?gk = "?folder @ ''/gallery.html''"
  let ?um = "upload_multiple_images_to_s3 env files b w"
  let ?gc = "GeneratePresignedUrl ''get_object'' b ?gk 3600"
  obtain rl w1 where lp: "upload_loop env files b ?folder [] ?w0 = (rl, w1)"
    by (cases "upload_loop env files b ?folder [] ?w0")
  from upload_loop_events [of env files b ?folder "[]" ?w0] lp obtain evs where evs:
    "trace w1 = trace ?w0 @ evs"
    by auto
  then have n1: "new_events ?w0 w1 = evs"
    by (rule new_events_append)
  have um_cases: "?um =
      (case rl of
         Inl e \<Rightarrow> (Inl e, w1)
       | Inr links \<Rightarrow>
           (case create_preview_html env links b ?folder w1 of
              (Inl e, w2) \<Rightarrow> (Inl e, w2)
            | (Inr path, w2) \<Rightarrow> generate_presigned_url env b path 3600 w2))"
    unfolding upload_multiple_images_to_s3_def Let_def lp by (cases rl) simp_all
  text \<open>the loop\<close>
  have "\<exists>G. trace (snd ?um) = trace w1 @ G"
  proof (cases rl)
    case (Inl e)
    with um_cases show ?thesis by simp
  next
    case (Inr links)
    obtain rc w2 where cp: "create_preview_html env links b ?folder w1 = (rc, w2)"
      by (cases "create_preview_html env links b ?folder w1")
    note cph = create_preview_html_cases [of env links b ?folder w1, unfolded cp fst_conv snd_conv]
    show ?thesis
    proof (cases rc)
      case (Inl e)
      with um_cases Inr cp cph(1) show ?thesis by simp
    next
      case rcr: (Inr path)
      obtain pr where "trace (snd (generate_presigned_url env b path 3600 w2)) =
           trace w2 @
           S3 (GeneratePresignedUrl ''get_object'' b path 3600)
              (respond env (trace w2) (GeneratePresignedUrl ''get_object'' b path 3600)) # pr"
        by (rule generate_presigned_url_cases)
      with um_cases Inr cp rcr cph(1) show ?thesis by simp
    qed
  qed
  then obtain G where "trace (snd ?um) = trace w @ Uuid4 ?sid # evs @ G"
    using evs by auto
  then have "new_events w (snd ?um) = Uuid4 ?sid # evs @ G"
    by (rule new_events_append)
  with assms n1 lp
  have "\<forall>c e. S3 c (Inl e) \<notin>
          set (new_events ?w0 (snd (upload_loop env files b ?folder [] ?w0)))"
    by auto
  from upload_loop_ok [OF this] lp n1 obtain links where
    rl: "rl = Inr links" and
    urls: "map fst (presigned_urls evs) = map (\<lambda>f. ?folder @ ''/'' @ name f) files"
    by auto
  text \<open>the gallery page\<close>
  let ?html = "foldl (\<lambda>html link. html @ html_entry link) html_header links @ html_footer"
  let ?uf = "UploadFile ''gallery.html'' b ?gk ''text/html'' ?html"
  let ?r = "respond env (trace w1 @ [WriteFile ''gallery.html'' ?html]) ?uf"
  obtain rc w2 where cp: "create_preview_html env links b ?folder w1 = (rc, w2)"
    by (cases "create_preview_html env links b ?folder w1")
  note cph = create_preview_html_cases [of env links b ?folder w1, unfolded cp fst_conv snd_conv]
  have "\<exists>G. trace (snd ?um) = trace w1 @ WriteFile ''gallery.html'' ?html # S3 ?uf ?r # G"
  proof (cases rc)
    case (Inl e)
    with um_cases rl cp cph(1) show ?thesis by simp
  next
    case rcr: (Inr path)
    obtain pr where "trace (snd (generate_presigned_url env b path 3600 w2)) =
         trace w2 @
         S3 (GeneratePresignedUrl ''get_object'' b path 3600)
            (respond env (trace w2) (GeneratePresignedUrl ''get_object'' b path 3600)) # pr"
      by (rule generate_presigned_url_cases)
    with um_cases rl cp rcr cph(1) show ?thesis by simp
  qed
  then obtain G where
    "trace (snd ?um) = trace w @ Uuid4 ?sid # evs @ WriteFile ''gallery.html'' ?html # S3 ?uf ?r # G"
    using evs by auto
  then have "new_events w (snd ?um) =
      Uuid4 ?sid # evs @ WriteFile ''gallery.html'' ?html # S3 ?uf ?r # G"
    by (rule new_events_append)
  with assms obtain x where r: "?r = Inr x"
    by (cases ?r) auto
  with cph(1,2) have rc: "rc = Inr ?gk"
    and t2: "trace w2 = trace w1 @
        [WriteFile ''gallery.html'' ?html, S3 ?uf (Inr x), RemoveFile ''gallery.html'']"
    by simp_all
  from um_cases rl cp rc have um: "?um = generate_presigned_url env b ?gk 3600 w2"
    by simp
  obtain pr where pr:
    "trace (snd (generate_presigned_url env b ?gk 3600 w2)) =
       trace w2 @ S3 ?gc (respond env (trace w2) ?gc) # pr"
    "pr = [] \<or> (\<exists>m. pr = [Print m])"
    "fs (snd (generate_presigned_url env b ?gk 3600 w2)) = fs w2"
    "fst (generate_presigned_url env b ?gk 3600 w2) =
       (case respond env (trace w2) ?gc of
          Inr url \<Rightarrow> Inr (Some url)
        | Inl (ClientError m) \<Rightarrow> Inr None
        | Inl e \<Rightarrow> Inl e)"
    "(\<exists>url. respond env (trace w2) ?gc = Inr url) \<longrightarrow> pr = []"
    by (rule generate_presigned_url_cases)
  let ?rr = "respond env (trace w2) ?gc"
  from pr(1) um t2 evs
  have "trace (snd ?um) =
      trace w @ Uuid4 ?sid # evs @
      [WriteFile ''gallery.html'' ?html, S3 ?uf (Inr x), RemoveFile ''gallery.html'', S3 ?gc ?rr] @ pr"
    by simp
  then have new: "new_events w (snd ?um) =
      Uuid4 ?sid # evs @
      [WriteFile ''gallery.html'' ?html, S3 ?uf (Inr x), RemoveFile ''gallery.html'', S3 ?gc ?rr] @ pr"
    by (rule new_events_append)
  with assms obtain url where url: "?rr = Inr url"
    by (cases ?rr) auto
  with pr(5) have "pr = []"
    by blast
  with new url have pu: "presigned_urls (new_events w (snd ?um)) = presigned_urls evs @ [(?gk, url)]"
    by (simp add: presigned_urls_Cons)
  from pr(4) um url have "fst ?um = Inr (Some url)"
    by simp
  moreover from urls have "length (presigned_urls evs) = length files"
    by (metis length_map)
  ultimately show ?thesis
    using pu urls by simp
qed

theorem presigned_urls_produced_witness:
  "(\<forall>c e. S3 c (Inl e) \<notin>
      set (new_events w_abc (snd (upload_multiple_images_to_s3 env_ok [f_a, f_b] ''bkt'' w_abc)))) \<and>
   fst (upload_multiple_images_to_s3 env_ok [f_a, f_b] ''bkt'' w_abc) =
     Inr (Some ''https://bkt/uploads/6f1c/gallery.html?sig'') \<and>
   length (presigned_urls
     (new_events w_abc (snd (upload_multiple_images_to_s3 env_ok [f_a, f_b] ''bkt'' w_abc)))) = 3 \<and>
   map fst (butlast (presigned_urls
     (new_events w_abc (snd (upload_multiple_images_to_s3 env_ok [f_a, f_b] ''bkt'' w_abc))))) =
     [''uploads/6f1c/a.png'', ''uploads/6f1c/b.png'']"
proof -
  have h: "\<forall>c e. S3 c (Inl e) \<notin>
      set (new_events w_abc (snd (upload_multiple_images_to_s3 env_ok [f_a, f_b] ''bkt'' w_abc)))"
    by (simp add: run_defs w_abc_def env_ok_def f_a_def f_b_def)
  have sid: "uuid4 env_ok (trace w_abc) = ''6f1c''"
    by (simp add: env_ok_def)
  from presigned_urls_produced [OF h] h env_ok_returns show ?thesis
    by (simp add: sid f_a_def f_b_def)
qed

text \<open>
  C3 as stated fails when an upload fails: of two submitted files the first is refused,
  the call returns, and one object URL and the gallery URL have been produced.
\<close>

theorem presigned_urls_counterexample:
  "fst (upload_multiple_images_to_s3 env_a_fails [f_a, f_b] ''bkt'' w_empty) =
     Inr (Some ''https://bkt/uploads/6f1c/gallery.html?sig'') \<and>
   presigned_urls
     (new_events w_empty (snd (upload_multiple_images_to_s3 env_a_fails [f_a, f_b] ''bkt'' w_empty))) =
     [(''uploads/6f1c/b.png'', ''https://bkt/uploads/6f1c/b.png?sig''),
      (''uploads/6f1c/gallery.html'', ''https://bkt/uploads/6f1c/gallery.html?sig'')]"
  by (simp add: run_defs w_empty_def env_a_fails_def f_a_def f_b_def presigned_urls_Cons)


section \<open>A gallery without images\<close>

text \<open>
  C10. Even when the loop leaves \<^verbatim>\<open>image_links\<close> empty (every per-file upload or URL
  generation has failed), \<^verbatim>\<open>upload_multiple_images_to_s3\<close> still writes and uploads a
  \<^verbatim>\<open>gallery.html\<close> that consists of the page header and footer with no image entry
  between them; if that upload and the request for its pre-signed URL succeed, the
  function returns this URL, and, the URL being a non-empty string, the form (reached
  with a non-blank ASCII bucket name and at least one file) reports success.
\<close>

theorem empty_gallery:
  assumes "upload_loop env files b (''uploads/'' @ uuid4 env (trace w)) []
             (emit (Uuid4 (uuid4 env (trace w))) w) = (Inr [], w1)"
    and "respond env (trace w1 @ [WriteFile ''gallery.html'' (html_header @ html_footer)])
           (UploadFile ''gallery.html'' b (''uploads/'' @ uuid4 env (trace w) @ ''/gallery.html'')
              ''text/html'' (html_header @ html_footer)) = Inr x"
    and "respond env
           (trace w1 @
            [WriteFile ''gallery.html'' (html_header @ html_footer),
             S3 (UploadFile ''gallery.html'' b
                   (''uploads/'' @ uuid4 env (trace w) @ ''/gallery.html'')
                   ''text/html'' (html_header @ html_footer)) (Inr x),
             RemoveFile ''gallery.html''])
           (GeneratePresignedUrl ''get_object'' b
              (''uploads/'' @ uuid4 env (trace w) @ ''/gallery.html'') 3600) = Inr url"
    and "url \<noteq> []"
    and "files \<noteq> []"
    and "list_all (\<lambda>c. (of_char c :: nat) < 128) b"
    and "strip b \<noteq> []"
  shows "fst (upload_multiple_images_to_s3 env files b w) = Inr (Some url) \<and>
     new_events w1 (snd (upload_multiple_images_to_s3 env files b w)) =
       [WriteFile ''gallery.html'' (html_header @ html_footer),
        S3 (UploadFile ''gallery.html'' b (''uploads/'' @ uuid4 env (trace w) @ ''/gallery.html'')
              ''text/html'' (html_header @ html_footer)) (Inr x),
        RemoveFile ''gallery.html'',
        S3 (GeneratePresignedUrl ''get_object'' b
              (''uploads/'' @ uuid4 env (trace w) @ ''/gallery.html'') 3600) (Inr url)] \<and>
     fst (upload_button env b files w) = Inr () \<and>
     new_events (snd (upload_multiple_images_to_s3 env files b w))
                (snd (upload_button env b files w)) =
       [St (St_success ''Files uploaded successfully!''),
        St (St_write ''### View Uploaded Images:''),
        St (St_markdown (''[Click to View Image Gallery]('' @ url @ '')''))]"
proof -
  let ?sid = "uuid4 env (trace w)"
  let ?folder = "''uploads/'' @ ?sid"
  let ?gk = "?folder @ ''/gallery.html''"
  let ?html = "html_header @ html_footer"
  let ?uf = "UploadFile ''gallery.html'' b ?gk ''text/html'' ?html"
  let ?gc = "GeneratePresignedUrl ''get_object'' b ?gk 3600"
  let ?um = "upload_multiple_images_to_s3 env files b w"
  obtain rc w2 where cp: "create_preview_html env [] b ?folder w1 = (rc, w2)"
    by (cases "create_preview_html env [] b ?folder w1")
  note cph = create_preview_html_cases [of env "[]" b ?folder w1, unfolded cp fst_conv snd_conv]
  from cph(1,2) assms(2) have rc: "rc = Inr ?gk"
    and t2: "trace w2 = trace w1 @ [WriteFile ''gallery.html'' ?html, S3 ?uf (Inr x),
                                    RemoveFile ''gallery.html'']"
    by simp_all
  have "?um =
      (case create_preview_html env [] b ?folder w1 of
         (Inl e, w2) \<Rightarrow> (Inl e, w2)
       | (Inr path, w2) \<Rightarrow> generate_presigned_url env b path 3600 w2)"
    unfolding upload_multiple_images_to_s3_def Let_def assms(1) by simp
  with cp rc have um: "?um = generate_presigned_url env b ?gk 3600 w2"
    by simp
  obtain pr where pr:
    "trace (snd (generate_presigned_url env b ?gk 3600 w2)) =
       trace w2 @ S3 ?gc (respond env (trace w2) ?gc) # pr"
    "pr = [] \<or> (\<exists>m. pr = [Print m])"
    "fs (snd (generate_presigned_url env b ?gk 3600 w2)) = fs w2"
    "fst (generate_presigned_url env b ?gk 3600 w2) =
       (case respond env (trace w2) ?gc of
          Inr url \<Rightarrow> Inr (Some url)
        | Inl (ClientError m) \<Rightarrow> Inr None
        | Inl e \<Rightarrow> Inl e)"
    "(\<exists>url. respond env (trace w2) ?gc = Inr url) \<longrightarrow> pr = []"
    by (rule generate_presigned_url_cases)
  from assms(3) t2 have rr: "respond env (trace w2) ?gc = Inr url"
    by simp
  with pr(5) have "pr = []"
    by blast
  with pr(1) um t2 rr
  have "trace (snd ?um) = trace w1 @
      [WriteFile ''gallery.html'' ?html, S3 ?uf (Inr x), RemoveFile ''gallery.html'',
       S3 ?gc (Inr url)]"
    by simp
  then have new: "new_events w1 (snd ?um) =
      [WriteFile ''gallery.html'' ?html, S3 ?uf (Inr x), RemoveFile ''gallery.html'',
       S3 ?gc (Inr url)]"
    by (rule new_events_append)
  from pr(4) um rr have res: "fst ?um = Inr (Some url)"
    by simp
  then have eq: "?um = (Inr (Some url), snd ?um)"
    by (metis prod.collapse)
  have ub: "upload_button env b files w =
      (Inr (),
       emit (St (St_markdown (''[Click to View Image Gallery]('' @ url @ '')'')))
         (emit (St (St_write ''### View Uploaded Images:''))
            (emit (St (St_success ''Files uploaded successfully!'')) (snd ?um))))"
    unfolding upload_button_def using assms(4,5,7) by (subst eq) simp
  have "trace (snd (upload_button env b files w)) = trace (snd ?um) @
       [St (St_success ''Files uploaded successfully!''),
        St (St_write ''### View Uploaded Images:''),
        St (St_markdown (''[Click to View Image Gallery]('' @ url @ '')''))]"
    unfolding ub by simp
  then have "new_events (snd ?um) (snd (upload_button env b files w)) =
       [St (St_success ''Files uploaded successfully!''),
        St (St_write ''### View Uploaded Images:''),
        St (St_markdown (''[Click to View Image Gallery]('' @ url @ '')''))]"
    by (rule new_events_append)
  with res new ub show ?thesis
    by simp
qed

lemma part_fails_loop:
  "fst (upload_loop env_part_fails [f_a] ''bkt'' (''uploads/'' @ uuid4 env_part_fails (trace w_empty)) []
          (emit (Uuid4 (uuid4 env_part_fails (trace w_empty))) w_empty)) = Inr []"
  by (simp add: run_defs w_empty_def env_part_fails_def f_a_def)

theorem empty_gallery_witness:
  "fst (upload_loop env_part_fails [f_a] ''bkt''
          (''uploads/'' @ uuid4 env_part_fails (trace w_empty)) []
          (emit (Uuid4 (uuid4 env_part_fails (trace w_empty))) w_empty)) = Inr [] \<and>
   fst (upload_multiple_images_to_s3 env_part_fails [f_a] ''bkt'' w_empty) =
     Inr (Some ''https://bkt/uploads/6f1c/gallery.html?sig'') \<and>
   fst (upload_button env_part_fails ''bkt'' [f_a] w_empty) = Inr () \<and>
   new_events (snd (upload_multiple_images_to_s3 env_part_fails [f_a] ''bkt'' w_empty))
              (snd (upload_button env_part_fails ''bkt'' [f_a] w_empty)) =
     [St (St_success ''Files uploaded successfully!''),
      St (St_write ''### View Uploaded Images:''),
      St (St_markdown
            (''[Click to View Image Gallery]('' @ ''https://bkt/uploads/6f1c/gallery.html?sig'' @ '')''))]"
proof -
  let ?L = "upload_loop env_part_fails [f_a] ''bkt''
          (''uploads/'' @ uuid4 env_part_fails (trace w_empty)) []
          (emit (Uuid4 (uuid4 env_part_fails (trace w_empty))) w_empty)"
  have h1: "?L = (Inr [], snd ?L)"
    using part_fails_loop by (metis prod.collapse)
  have h2: "respond env_part_fails
      (trace (snd ?L) @ [WriteFile ''gallery.html'' (html_header @ html_footer)])
      (UploadFile ''gallery.html'' ''bkt''
         (''uploads/'' @ uuid4 env_part_fails (trace w_empty) @ ''/gallery.html'')
         ''text/html'' (html_header @ html_footer)) = Inr []"
    by (simp add: env_part_fails_def)
  have h3: "respond env_part_fails
      (trace (snd ?L) @
       [WriteFile ''gallery.html'' (html_header @ html_footer),
        S3 (UploadFile ''gallery.html'' ''bkt''
              (''uploads/'' @ uuid4 env_part_fails (trace w_empty) @ ''/gallery.html'')
              ''text/html'' (html_header @ html_footer)) (Inr []),
        RemoveFile ''gallery.html''])
      (GeneratePresignedUrl ''get_object'' ''bkt''
         (''uploads/'' @ uuid4 env_part_fails (trace w_empty) @ ''/gallery.html'') 3600) =
      Inr ''https://bkt/uploads/6f1c/gallery.html?sig''"
    by (simp add: env_part_fails_def)
  have h4: "''https://bkt/uploads/6f1c/gallery.html?sig'' \<noteq> []"
    by simp
  have h5: "[f_a] \<noteq> []"
    by simp
  have h6: "list_all (\<lambda>c. (of_char c :: nat) < 128) ''bkt''"
    by simp
  have h7: "strip ''bkt'' \<noteq> []"
    by (simp add: strip_def isspace_def)
  from empty_gallery [OF h1 h2 h3 h4 h5 h6 h7] part_fails_loop show ?thesis
    by simp
qed


end
